theory Spec2Isabelle
  imports Main "HOL-Library.Multiset"
begin

section \<open>Data model of \<open>src/game/rooms.js\<close>\<close>

text \<open>
  Cards travel over the wire and are compared with \<open>Array.prototype.indexOf\<close>
  (strict equality), so they are modelled as strings. A row name is the string the
  client sent; it is used as a property key of the board object.
\<close>

type_synonym card = string

record board =
  row_top :: "card list"
  row_middle :: "card list"
  row_bottom :: "card list"

record player =
  userId :: string
  name :: string
  socketId :: string
  board :: board
  hand :: "card list"
  discards :: "card list"
  ready :: bool

datatype phase = Waiting | InitialSet | Round | Reveal

text \<open>
  \<open>room.players\<close> is a JavaScript \<open>Map\<close>: an association list in insertion order.
  The field \<open>deck\<close> is not touched by \<open>rooms.js\<close>; it is the remaining deck that
  \<open>dealToAll\<close> of \<open>state.js\<close> draws from.
\<close>

record room =
  room_id :: string
  phase :: phase
  round_num :: nat
  roundIndex :: nat
  players :: "(string \<times> player) list"
  deck :: "card list"

text \<open>The constants of \<open>rules.js\<close>, which is not part of the sources: a parameter.\<close>

record rules =
  players_min :: nat
  players_max :: nat
  layout_top :: nat
  layout_middle :: nat
  layout_bottom :: nat
  deal_initialSetCount :: nat
  deal_rounds :: nat
  deal_cardsPerRound :: nat
  deal_placeCountPerRound :: nat

record placement =
  p_row :: string
  p_card :: card

text \<open>
  One constructor for each message a handler can send or throw. \<open>CardNotInHand\<close> is the
  message "Card c is not in your hand." of a placement, \<open>DiscardNotInHand\<close> the message
  "Discard d is not in your hand." (both are the specification's CardNotInHand).
  \<open>NotAFunction\<close> is the \<open>TypeError\<close> of calling \<open>push\<close> on a value that has none.
\<close>

datatype error =
    RoomNotFound
  | RoomFull
  | InsufficientPlayers
  | CardNotInHand card
  | DiscardNotInHand card
  | InvalidRow string
  | RowFull string
  | WrongPlacementCount nat
  | DiscardRequired
  | DiscardNotAllowed
  | DeckExhausted
  | NotAFunction

section \<open>JavaScript primitives used by the handlers\<close>

text \<open>\<open>xs.indexOf(c)\<close>: the first index holding \<open>c\<close>; \<open>None\<close> stands for \<open>-1\<close>.\<close>

fun indexOf :: "'a list \<Rightarrow> 'a \<Rightarrow> nat option" where
  "indexOf [] c = None"
| "indexOf (x # xs) c = (if x = c then Some 0 else map_option Suc (indexOf xs c))"

text \<open>\<open>xs.splice(i, 1)\<close>: the list without its element at index \<open>i\<close>.\<close>

definition splice1 :: "nat \<Rightarrow> 'a list \<Rightarrow> 'a list" where
  "splice1 i xs = take i xs @ drop (Suc i) xs"

text \<open>
  \<open>xs.slice(-n)\<close>: the last \<open>n\<close> elements (all of them when there are fewer); \<open>-0\<close> is
  \<open>0\<close>, so \<open>slice(-0)\<close> is the whole list.
\<close>

definition slice_last :: "nat \<Rightarrow> 'a list \<Rightarrow> 'a list" where
  "slice_last n xs = (if n = 0 then xs else drop (length xs - n) xs)"

text \<open>Truthiness of an optional string: \<open>null\<close>, \<open>undefined\<close> and \<open>""\<close> are falsy.\<close>

definition truthy :: "string option \<Rightarrow> bool" where
  "truthy d = (case d of None \<Rightarrow> False | Some s \<Rightarrow> s \<noteq> [])"

text \<open>
  The board is an object literal \<open>{top, middle, bottom}\<close>. Reading \<open>board[row]\<close> finds
  an own property for the three row names, and otherwise walks to \<open>Object.prototype\<close>:
  its property names give a truthy value that is not an array. The table holds the
  \<open>length\<close> of each of these values: the arity of the function, and nothing for
  \<open>__proto__\<close>, whose value is \<open>Object.prototype\<close> itself.
\<close>

definition object_prototype :: "(string \<times> nat option) list" where
  "object_prototype =
     [(''constructor'', Some 1), (''hasOwnProperty'', Some 1), (''isPrototypeOf'', Some 1),
      (''propertyIsEnumerable'', Some 1), (''toLocaleString'', Some 0),
      (''toString'', Some 0), (''valueOf'', Some 0),
      (''__defineGetter__'', Some 2), (''__defineSetter__'', Some 2),
      (''__lookupGetter__'', Some 1), (''__lookupSetter__'', Some 1),
      (''__proto__'', None)]"

datatype slot = Row "card list" | Inherited "nat option" | Undefined

definition board_get :: "board \<Rightarrow> string \<Rightarrow> slot" where
  "board_get b r =
     (if r = ''top'' then Row (row_top b)
      else if r = ''middle'' then Row (row_middle b)
      else if r = ''bottom'' then Row (row_bottom b)
      else (case map_of object_prototype r of
              Some len \<Rightarrow> Inherited len
            | None \<Rightarrow> Undefined))"

text \<open>\<open>board[row].push(card)\<close> on one of the three rows.\<close>

definition board_push :: "board \<Rightarrow> string \<Rightarrow> card \<Rightarrow> board" where
  "board_push b r c =
     (if r = ''top'' then b\<lparr>row_top := row_top b @ [c]\<rparr>
      else if r = ''middle'' then b\<lparr>row_middle := row_middle b @ [c]\<rparr>
      else if r = ''bottom'' then b\<lparr>row_bottom := row_bottom b @ [c]\<rparr>
      else b)"

text \<open>\<open>Map.get\<close> and \<open>Map.set\<close>: setting a present key keeps its position.\<close>

definition map_get :: "('k \<times> 'v) list \<Rightarrow> 'k \<Rightarrow> 'v option" where
  "map_get m k = map_of m k"

fun map_set :: "'k \<Rightarrow> 'v \<Rightarrow> ('k \<times> 'v) list \<Rightarrow> ('k \<times> 'v) list" where
  "map_set k v [] = [(k, v)]"
| "map_set k v ((k', v') # m) =
     (if k' = k then (k, v) # m else (k', v') # map_set k v m)"

section \<open>The placement loop\<close>

text \<open>
  The loop body is the same text in \<open>applyBatch\<close> (on the working copies) and in the
  legacy \<open>placeHandler\<close> (on the player's own hand and board). One step either places the
  card, or returns a message, or throws after the card has left the hand: for a row name
  inherited from \<open>Object.prototype\<close> the row check passes, the limit is that of the
  bottom row, and \<open>push\<close> is not a function.
\<close>

definition limit :: "rules \<Rightarrow> string \<Rightarrow> nat" where
  "limit rules r =
     (if r = ''top'' then layout_top rules
      else if r = ''middle'' then layout_middle rules
      else layout_bottom rules)"

datatype step = Placed "card list" board | Rejected error | Crashed "card list"

definition place_step :: "rules \<Rightarrow> card list \<Rightarrow> board \<Rightarrow> placement \<Rightarrow> step" where
  "place_step rules h b pl =
     (case indexOf h (p_card pl) of
        None \<Rightarrow> Rejected (CardNotInHand (p_card pl))
      | Some idx \<Rightarrow>
          (case board_get b (p_row pl) of
             Undefined \<Rightarrow> Rejected (InvalidRow (p_row pl))
           | Inherited len \<Rightarrow>
               (if (case len of Some l \<Rightarrow> limit rules (p_row pl) \<le> l | None \<Rightarrow> False)
                then Rejected (RowFull (p_row pl))
                else Crashed (splice1 idx h))
           | Row cs \<Rightarrow>
               (if limit rules (p_row pl) \<le> length cs
                then Rejected (RowFull (p_row pl))
                else Placed (splice1 idx h) (board_push b (p_row pl) (p_card pl)))))"

fun place_all :: "rules \<Rightarrow> card list \<Rightarrow> board \<Rightarrow> placement list \<Rightarrow> step" where
  "place_all rules h b [] = Placed h b"
| "place_all rules h b (pl # pls) =
     (case place_step rules h b pl of
        Placed h' b' \<Rightarrow> place_all rules h' b' pls
      | Rejected e \<Rightarrow> Rejected e
      | Crashed h' \<Rightarrow> Crashed h')"

text \<open>
  \<open>placements?.length || 0\<close>, and the list the loop runs over: \<open>if (placements)\<close>
  skips it for \<open>null\<close>, and \<open>placements || []\<close> of the legacy handler does the same.
\<close>

definition batch_count :: "placement list option \<Rightarrow> nat" where
  "batch_count placements = (case placements of None \<Rightarrow> 0 | Some ps \<Rightarrow> length ps)"

definition batch_list :: "placement list option \<Rightarrow> placement list" where
  "batch_list placements = (case placements of None \<Rightarrow> [] | Some ps \<Rightarrow> ps)"

section \<open>applyBatch\<close>

text \<open>
  \<open>applyBatch\<close> validates on clones of the hand and of the three rows and assigns them
  to the player only at the end. The model returns the result together with the player
  as the call leaves it. \<open>placements\<close> is \<open>None\<close> for \<open>null\<close>; \<open>discard\<close> is \<open>None\<close>
  for \<open>null\<close>. The three phase checks are written as one chain, in the order of the
  source: the discard check of the initial set, then the count and the discard check of
  every other phase.
\<close>

datatype batch_result = Success | Failed error | Threw error

definition applyBatch ::
  "rules \<Rightarrow> room \<Rightarrow> player \<Rightarrow> placement list option \<Rightarrow> card option \<Rightarrow> batch_result \<times> player"
where
  "applyBatch rules room player placements discard =
     (let isInitial = (phase room = InitialSet);
          needPlace = deal_placeCountPerRound rules
      in
      if isInitial \<and> truthy discard then (Failed DiscardNotAllowed, player)
      else if \<not> isInitial \<and> batch_count placements \<noteq> needPlace
        then (Failed (WrongPlacementCount needPlace), player)
      else if \<not> isInitial \<and> \<not> truthy discard then (Failed DiscardRequired, player)
      else
        (case place_all rules (hand player) (board player)
                (batch_list placements) of
           Rejected e \<Rightarrow> (Failed e, player)
         | Crashed h \<Rightarrow> (Threw NotAFunction, player)
         | Placed h b \<Rightarrow>
             (if truthy discard then
                (case indexOf h (the discard) of
                   None \<Rightarrow> (Failed (DiscardNotInHand (the discard)), player)
                 | Some di \<Rightarrow>
                     (Success, player\<lparr>hand := splice1 di h, board := b,
                                       discards := discards player @ [the discard]\<rparr>))
              else (Success, player\<lparr>hand := h, board := b\<rparr>))))"

section \<open>Events and the public room state\<close>

record socket =
  sock_id :: string
  user_sub :: string

record placed =
  placed_top :: nat
  placed_middle :: nat
  placed_bottom :: nat

record public_player =
  pp_userId :: string
  pp_name :: string
  pp_placed :: placed
  pp_ready :: bool

record room_state =
  rs_roomId :: string
  rs_phase :: phase
  rs_round :: nat
  rs_players :: "public_player list"

record board_summary =
  bs_userId :: string
  bs_name :: string
  bs_board :: board
  bs_valid :: bool
  bs_reason :: "string option"

record 'd pair_entry =
  aUserId :: string
  bUserId :: string
  a_det :: 'd
  b_det :: 'd

text \<open>
  The value stored under a user id in \<open>totals\<close>, a plain object \<open>{}\<close>: a number, or the
  string that \<open>+\<close> builds once a value inherited from \<open>Object.prototype\<close> is read for
  the id. \<open>Joined nm ts\<close> is the text of the value that every object inherits under
  \<open>nm\<close> (a function, or \<open>Object.prototype\<close> itself), followed by the decimal texts of
  the numbers \<open>ts\<close> in turn.
\<close>

datatype total_value = Number int | Joined string "int list"

record 'd reveal =
  rv_boards :: "board_summary list"
  rv_results :: "string \<rightharpoonup> total_value"
  rv_pairwise :: "'d pair_entry list"
  rv_round :: nat

text \<open>
  What a handler sends: the first argument is the address (a socket id for
  \<open>socket.emit\<close> and \<open>io.to(p.socketId)\<close>, a room id for \<open>io.to(roomId)\<close>).
\<close>

datatype 'd event =
    ErrorEv string error
  | StartRoundEv string nat
  | DealBatchEv string "card list"
  | RoomStateEv string room_state
  | RevealEv string "'d reveal"

text \<open>\<open>mem.rooms\<close>, the registry of rooms by id.\<close>

type_synonym store = "string \<rightharpoonup> room"

text \<open>
  A handler's effect: the registry after the call, what it sent, and the exception that
  left it, if any.
\<close>

record 'd outcome =
  store_after :: store
  emitted :: "'d event list"
  thrown :: "error option"

definition public_player_of :: "player \<Rightarrow> public_player" where
  "public_player_of p =
     \<lparr>pp_userId = userId p, pp_name = name p,
      pp_placed = \<lparr>placed_top = length (row_top (board p)),
                   placed_middle = length (row_middle (board p)),
                   placed_bottom = length (row_bottom (board p))\<rparr>,
      pp_ready = ready p\<rparr>"

definition room_state_payload :: "room \<Rightarrow> room_state" where
  "room_state_payload room =
     \<lparr>rs_roomId = room_id room, rs_phase = phase room, rs_round = round_num room,
      rs_players = map (\<lambda>kp. public_player_of (snd kp)) (players room)\<rparr>"

definition emitRoomState :: "store \<Rightarrow> string \<Rightarrow> 'd event list" where
  "emitRoomState st roomId =
     (case st roomId of
        None \<Rightarrow> []
      | Some room \<Rightarrow> [RoomStateEv roomId (room_state_payload room)])"

section \<open>The collaborators of \<open>state.js\<close> and \<open>scoring.js\<close>\<close>

text \<open>
  Modelled from the spec: \<open>allReady\<close> of \<open>state.js\<close>, which is not part of the sources.
  It is true iff every player's \<open>ready\<close> flag is set.
\<close>

definition allReady :: "room \<Rightarrow> bool" where
  "allReady room = list_all (\<lambda>kp. ready (snd kp)) (players room)"

text \<open>
  Modelled from the spec: the loop of \<open>dealToAll\<close> of \<open>state.js\<close>, which is not part of
  the sources. Every player draws \<open>n\<close> fresh cards into the hand, in join order, from the
  front of the remaining deck.
\<close>

fun deal_players ::
  "nat \<Rightarrow> (string \<times> player) list \<Rightarrow> card list \<Rightarrow> (string \<times> player) list \<times> card list"
where
  "deal_players n [] d = ([], d)"
| "deal_players n (kp # ps) d =
     (case deal_players n ps (drop n d) of
        (ps', d') \<Rightarrow> ((fst kp, (snd kp)\<lparr>hand := hand (snd kp) @ take n d\<rparr>) # ps', d'))"

text \<open>
  Modelled from the spec: \<open>dealToAll\<close> of \<open>state.js\<close>, which is not part of the sources.
  It draws \<open>n\<close> fresh cards from the room's remaining deck into every player's hand, and
  fails with DeckExhausted if insufficient cards remain.
\<close>

definition dealToAll :: "room \<Rightarrow> nat \<Rightarrow> error + room" where
  "dealToAll room n =
     (if length (deck room) < n * length (players room) then Inl DeckExhausted
      else (case deal_players n (players room) (deck room) of
              (ps', d') \<Rightarrow> Inr (room\<lparr>players := ps', deck := d'\<rparr>)))"




text \<open>
  \<open>validateBoard\<close> and \<open>settlePairwiseDetailed\<close> of \<open>scoring.js\<close> are not part of the
  sources: they are parameters, with \<open>total\<close> reading the field \<open>total\<close> of one side of
  a pairwise result. \<open>validateBoard\<close> returns \<open>fouled\<close> and \<open>reason\<close>.
\<close>

record 'd scoring =
  validateBoard :: "board \<Rightarrow> bool \<times> string"
  settlePairwiseDetailed :: "board \<Rightarrow> board \<Rightarrow> 'd \<times> 'd"
  total :: "'d \<Rightarrow> int"

section \<open>The handlers\<close>

subsection \<open>joinRoomHandler\<close>

text \<open>\<open>name || ("Player-" + userId.slice(-4))\<close>\<close>

definition join_name :: "string option \<Rightarrow> string \<Rightarrow> string" where
  "join_name nm uid = (if truthy nm then the nm else ''Player-'' @ slice_last 4 uid)"

definition fresh_player :: "socket \<Rightarrow> string option \<Rightarrow> player" where
  "fresh_player sock nm =
     \<lparr>userId = user_sub sock, name = join_name nm (user_sub sock), socketId = sock_id sock,
      board = \<lparr>row_top = [], row_middle = [], row_bottom = []\<rparr>,
      hand = [], discards = [], ready = False\<rparr>"

definition joinRoomHandler ::
  "rules \<Rightarrow> store \<Rightarrow> socket \<Rightarrow> string \<Rightarrow> string option \<Rightarrow> 'd outcome"
where
  "joinRoomHandler rules st sock roomId nm =
     (case st roomId of
        None \<Rightarrow> \<lparr>store_after = st, emitted = [ErrorEv (sock_id sock) RoomNotFound], thrown = None\<rparr>
      | Some room \<Rightarrow>
          (if players_max rules \<le> length (players room)
           then \<lparr>store_after = st, emitted = [ErrorEv (sock_id sock) RoomFull], thrown = None\<rparr>
           else
             (let room' = room\<lparr>players := map_set (user_sub sock) (fresh_player sock nm) (players room)\<rparr>;
                  st' = st(roomId \<mapsto> room')
              in \<lparr>store_after = st', emitted = emitRoomState st' roomId, thrown = None\<rparr>)))"

subsection \<open>startRoundHandler\<close>


subsection \<open>placeHandler (legacy)\<close>

text \<open>
  The legacy loop works on the player's own hand and board: every placed card is
  committed at once, and the loop leaves at the first message (or exception) with the
  player as the earlier placements left it. \<open>placements || []\<close> makes \<open>null\<close> the empty
  list.
\<close>

datatype loop_result = Done | Stopped error | Raised error

fun place_loop :: "rules \<Rightarrow> player \<Rightarrow> placement list \<Rightarrow> loop_result \<times> player" where
  "place_loop rules p [] = (Done, p)"
| "place_loop rules p (pl # pls) =
     (case place_step rules (hand p) (board p) pl of
        Placed h' b' \<Rightarrow> place_loop rules (p\<lparr>hand := h', board := b'\<rparr>) pls
      | Rejected e \<Rightarrow> (Stopped e, p)
      | Crashed h' \<Rightarrow> (Raised NotAFunction, p\<lparr>hand := h'\<rparr>))"

definition placeHandler ::
  "rules \<Rightarrow> store \<Rightarrow> socket \<Rightarrow> string \<Rightarrow> placement list option \<Rightarrow> 'd outcome"
where
  "placeHandler rules st sock roomId placements =
     (case st roomId of
        None \<Rightarrow> \<lparr>store_after = st, emitted = [], thrown = None\<rparr>
      | Some room \<Rightarrow>
          (case map_get (players room) (user_sub sock) of
             None \<Rightarrow> \<lparr>store_after = st, emitted = [], thrown = None\<rparr>
           | Some p \<Rightarrow>
               (case place_loop rules p (batch_list placements) of
                  (res, p') \<Rightarrow>
                    (let room' = room\<lparr>players := map_set (user_sub sock) p' (players room)\<rparr>;
                         st' = st(roomId \<mapsto> room')
                     in (case res of
                           Done \<Rightarrow>
                             \<lparr>store_after = st', emitted = emitRoomState st' roomId, thrown = None\<rparr>
                         | Stopped e \<Rightarrow>
                             \<lparr>store_after = st', emitted = [ErrorEv (sock_id sock) e], thrown = None\<rparr>
                         | Raised e \<Rightarrow>
                             \<lparr>store_after = st', emitted = [], thrown = Some e\<rparr>)))))"

subsection \<open>readyHandler\<close>

text \<open>The boards summary and the pairwise settlement of the reveal.\<close>

definition board_summary_of :: "'d scoring \<Rightarrow> player \<Rightarrow> board_summary" where
  "board_summary_of sc pl =
     (case validateBoard sc (board pl) of
        (fouled, reason) \<Rightarrow>
          \<lparr>bs_userId = userId pl, bs_name = name pl, bs_board = board pl,
           bs_valid = (\<not> fouled), bs_reason = (if fouled then Some reason else None)\<rparr>)"

text \<open>The pairs \<open>(i, j)\<close> with \<open>i < j\<close>, in the order of the nested loops.\<close>

fun pairs :: "'a list \<Rightarrow> ('a \<times> 'a) list" where
  "pairs [] = []"
| "pairs (x # xs) = map (Pair x) xs @ pairs xs"

text \<open>
  \<open>(totals[id] || 0) + t\<close>. An own number adds (\<open>0\<close> is falsy and replaced by \<open>0\<close>); an
  own string is truthy and \<open>+\<close> appends the text of \<open>t\<close>; with no own property the read
  walks to \<open>Object.prototype\<close>: an inherited value is truthy and \<open>+\<close> joins its text with
  that of \<open>t\<close>, and only an id found nowhere gives \<open>undefined\<close>, hence \<open>0 + t\<close>.
\<close>

definition totals_plus :: "(string \<rightharpoonup> total_value) \<Rightarrow> string \<Rightarrow> int \<Rightarrow> total_value" where
  "totals_plus totals k t =
     (case totals k of
        Some (Number n) \<Rightarrow> Number (n + t)
      | Some (Joined nm ts) \<Rightarrow> Joined nm (ts @ [t])
      | None \<Rightarrow>
          (case map_of object_prototype k of
             Some len \<Rightarrow> Joined k [t]
           | None \<Rightarrow> Number t))"

text \<open>
  \<open>totals[id] = v\<close>. The assignment creates or overwrites an own property, except for
  the id \<open>__proto__\<close>: there it calls the setter of \<open>Object.prototype\<close>, which ignores a
  value that is neither an object nor \<open>null\<close>, so nothing is stored.
\<close>

definition totals_assign ::
  "(string \<rightharpoonup> total_value) \<Rightarrow> string \<Rightarrow> total_value \<Rightarrow> (string \<rightharpoonup> total_value)"
where
  "totals_assign totals k v = (if k = ''__proto__'' then totals else totals(k \<mapsto> v))"

text \<open>One pass of the inner loop: settle the pair, add both totals, push the entry.\<close>

definition settle_pair ::
  "'d scoring \<Rightarrow> (string \<rightharpoonup> total_value) \<times> 'd pair_entry list \<Rightarrow> player \<times> player \<Rightarrow>
   (string \<rightharpoonup> total_value) \<times> 'd pair_entry list"
where
  "settle_pair sc acc ab =
     (case acc of (totals, pairw) \<Rightarrow>
      case ab of (A, B) \<Rightarrow>
      case settlePairwiseDetailed sc (board A) (board B) of (da, db) \<Rightarrow>
        (let totals1 = totals_assign totals (userId A)
                         (totals_plus totals (userId A) (total sc da));
             totals2 = totals_assign totals1 (userId B)
                         (totals_plus totals1 (userId B) (total sc db))
         in (totals2,
             pairw @ [\<lparr>aUserId = userId A, bUserId = userId B, a_det = da, b_det = db\<rparr>])))"

definition reveal_payload :: "'d scoring \<Rightarrow> room \<Rightarrow> 'd reveal" where
  "reveal_payload sc room =
     (let playersArr = map snd (players room);
          boards = map (board_summary_of sc) playersArr
      in (case foldl (settle_pair sc) (Map.empty, []) (pairs playersArr) of
            (totals, pairw) \<Rightarrow>
              \<lparr>rv_boards = boards, rv_results = totals, rv_pairwise = pairw,
               rv_round = round_num room\<rparr>))"

text \<open>\<open>for (const pl of room.players.values()) pl.ready = false\<close>\<close>

definition clear_ready :: "room \<Rightarrow> room" where
  "clear_ready room =
     room\<lparr>players := map (\<lambda>kp. (fst kp, (snd kp)\<lparr>ready := False\<rparr>)) (players room)\<rparr>"

text \<open>
  The part of \<open>readyHandler\<close> after \<open>p.ready = true\<close>: \<open>room\<close> is the room as the commit
  left it, \<open>st\<close> the registry that holds it under \<open>roomId\<close>.
\<close>

definition transition ::
  "rules \<Rightarrow> 'd scoring \<Rightarrow> store \<Rightarrow> string \<Rightarrow> room \<Rightarrow> 'd outcome"
where
  "transition rules sc st roomId room =
     (if allReady room then
        (let room1 = clear_ready room in
         if roundIndex room1 < deal_rounds rules then
           (case dealToAll room1 (deal_cardsPerRound rules) of
              Inl e \<Rightarrow> \<lparr>store_after = st(roomId \<mapsto> room1), emitted = [], thrown = Some e\<rparr>
            | Inr room2 \<Rightarrow>
                (let room3 = room2\<lparr>phase := Round\<rparr>;
                     deals = map (\<lambda>kp. DealBatchEv (socketId (snd kp))
                                         (slice_last (deal_cardsPerRound rules) (hand (snd kp))))
                                 (players room3);
                     room4 = room3\<lparr>roundIndex := roundIndex room3 + 1\<rparr>;
                     st' = st(roomId \<mapsto> room4)
                 in \<lparr>store_after = st', emitted = deals @ emitRoomState st' (room_id room4),
                     thrown = None\<rparr>))
         else
           (let room2 = room1\<lparr>phase := Reveal\<rparr>;
                st' = st(roomId \<mapsto> room2)
            in \<lparr>store_after = st',
                emitted = RevealEv (room_id room2) (reveal_payload sc room2) #
                          emitRoomState st' (room_id room2),
                thrown = None\<rparr>))
      else
        (let st' = st(roomId \<mapsto> room)
         in \<lparr>store_after = st', emitted = emitRoomState st' roomId, thrown = None\<rparr>))"

text \<open>
  \<open>applyBatch\<close> mutates the player object held by the room, so what it leaves is written
  back under the caller's id before the result is inspected. After a success the handler
  sets \<open>p.ready = true\<close> on that object: \<open>commit_ready\<close> is the room holding it.
\<close>

definition commit_ready :: "room \<Rightarrow> string \<Rightarrow> player \<Rightarrow> room" where
  "commit_ready room uid p1 =
     room\<lparr>players := map_set uid (p1\<lparr>ready := True\<rparr>) (players room)\<rparr>"

definition readyHandler ::
  "rules \<Rightarrow> 'd scoring \<Rightarrow> store \<Rightarrow> socket \<Rightarrow> string \<Rightarrow> placement list option \<Rightarrow> card option \<Rightarrow>
   'd outcome"
where
  "readyHandler rules sc st sock roomId placements discard =
     (case st roomId of
        None \<Rightarrow> \<lparr>store_after = st, emitted = [], thrown = None\<rparr>
      | Some room \<Rightarrow>
          (case map_get (players room) (user_sub sock) of
             None \<Rightarrow> \<lparr>store_after = st, emitted = [], thrown = None\<rparr>
           | Some p \<Rightarrow>
               (case applyBatch rules room p placements discard of
                  (ok, p1) \<Rightarrow>
                    (let room1 = room\<lparr>players := map_set (user_sub sock) p1 (players room)\<rparr>
                     in (case ok of
                           Threw e \<Rightarrow>
                             \<lparr>store_after = st(roomId \<mapsto> room1), emitted = [], thrown = Some e\<rparr>
                         | Failed e \<Rightarrow>
                             \<lparr>store_after = st(roomId \<mapsto> room1),
                              emitted = [ErrorEv (sock_id sock) e], thrown = None\<rparr>
                         | Success \<Rightarrow>
                             transition rules sc st roomId
                               (commit_ready room (user_sub sock) p1))))))"

section \<open>Derived notions used in the statements\<close>

text \<open>The cards on a board, row by row.\<close>

definition board_cards :: "board \<Rightarrow> card list" where
  "board_cards b = row_top b @ row_middle b @ row_bottom b"

text \<open>
  Two players agree on what the public room state shows of a player: id, name, the number
  of cards in each row and the ready flag. Two rooms agree when their id, phase and round
  do and their players agree one by one, in join order.
\<close>

definition same_public :: "player \<Rightarrow> player \<Rightarrow> bool" where
  "same_public p q =
     (userId p = userId q \<and> name p = name q \<and>
      length (row_top (board p)) = length (row_top (board q)) \<and>
      length (row_middle (board p)) = length (row_middle (board q)) \<and>
      length (row_bottom (board p)) = length (row_bottom (board q)) \<and>
      ready p = ready q)"

definition same_public_room :: "room \<Rightarrow> room \<Rightarrow> bool" where
  "same_public_room r1 r2 =
     (room_id r1 = room_id r2 \<and> phase r1 = phase r2 \<and> round_num r1 = round_num r2 \<and>
      list_all2 same_public (map snd (players r1)) (map snd (players r2)))"




text \<open>
  The events of a deal and of a reveal, and what a deal of \<open>n\<close> cards does to one entry of
  the players: the key and the player stay, the hand grows by \<open>n\<close> cards at its end, and
  the ready flag is cleared.
\<close>

definition is_reveal :: "'d event \<Rightarrow> bool" where
  "is_reveal ev = (case ev of RevealEv a r \<Rightarrow> True | _ \<Rightarrow> False)"

definition is_deal :: "'d event \<Rightarrow> bool" where
  "is_deal ev = (case ev of DealBatchEv a cs \<Rightarrow> True | _ \<Rightarrow> False)"

definition dealt :: "nat \<Rightarrow> string \<times> player \<Rightarrow> string \<times> player \<Rightarrow> bool" where
  "dealt n a b =
     (fst b = fst a \<and>
      length (hand (snd b)) = length (hand (snd a)) + n \<and>
      take (length (hand (snd a))) (hand (snd b)) = hand (snd a) \<and>
      snd b = (snd a)\<lparr>hand := hand (snd b), ready := False\<rparr>)"

section \<open>Example data\<close>

text \<open>
  The constants the specification gives as examples (rows of 3/5/5, an initial set of 5,
  4 rounds of 3 cards with 2 placements), for 2 to 3 players; a room of two players in
  its first pineapple round, held by the registry under \<open>r1\<close>.
\<close>

definition rules_ex :: rules where
  "rules_ex = \<lparr>players_min = 2, players_max = 3, layout_top = 3, layout_middle = 5,
               layout_bottom = 5, deal_initialSetCount = 5, deal_rounds = 4,
               deal_cardsPerRound = 3, deal_placeCountPerRound = 2\<rparr>"

definition scoring_ex :: "int scoring" where
  "scoring_ex = \<lparr>validateBoard = (\<lambda>b. (False, [])),
                 settlePairwiseDetailed = (\<lambda>a b. (0, 0)), total = (\<lambda>d. d)\<rparr>"

definition alice :: player where
  "alice = \<lparr>userId = ''u1'', name = ''Alice'', socketId = ''s1'',
            board = \<lparr>row_top = [], row_middle = [''9h''], row_bottom = [''Qs'', ''Qd'']\<rparr>,
            hand = [''As'', ''Kd'', ''7c''], discards = [], ready = False\<rparr>"

definition bob :: player where
  "bob = \<lparr>userId = ''u2'', name = ''Bob'', socketId = ''s2'',
          board = \<lparr>row_top = [''2c''], row_middle = [], row_bottom = [''Jh'', ''Jd'']\<rparr>,
          hand = [''3s'', ''4d'', ''5c''], discards = [], ready = False\<rparr>"

definition room_ex :: room where
  "room_ex = \<lparr>room_id = ''r1'', phase = Round, round_num = 1, roundIndex = 1,
              players = [(''u1'', alice), (''u2'', bob)],
              deck = [''Tc'', ''Td'', ''Th'', ''Ts'', ''8c'', ''8d'', ''8h'', ''8s'']\<rparr>"

definition store_ex :: store where
  "store_ex = Map.empty(''r1'' \<mapsto> room_ex)"

definition sock_alice :: socket where
  "sock_alice = \<lparr>sock_id = ''s1'', user_sub = ''u1''\<rparr>"

definition batch_ex :: "placement list" where
  "batch_ex = [\<lparr>p_row = ''top'', p_card = ''As''\<rparr>, \<lparr>p_row = ''middle'', p_card = ''Kd''\<rparr>]"

text \<open>
  A player with Alice's id, name, row counts and flag but other cards, a registry whose
  room \<open>r1\<close> holds that player, and Alice after her first card went to the top row.
\<close>

definition alice_other :: player where
  "alice_other = \<lparr>userId = ''u1'', name = ''Alice'', socketId = ''s9'',
            board = \<lparr>row_top = [], row_middle = [''2d''], row_bottom = [''3h'', ''4h'']\<rparr>,
            hand = [''5h''], discards = [''6h'', ''6d''], ready = False\<rparr>"

definition store_other :: store where
  "store_other =
     Map.empty(''r1'' \<mapsto> room_ex\<lparr>players := [(''u1'', alice_other), (''u2'', bob)], deck := []\<rparr>)"

definition alice_placed :: player where
  "alice_placed =
     alice\<lparr>hand := [''Kd'', ''7c''],
            board := \<lparr>row_top = [''As''], row_middle = [''9h''], row_bottom = [''Qs'', ''Qd'']\<rparr>\<rparr>"

text \<open>
  Alice after the example batch with the discard \<open>7c\<close>; the room with Bob ready, the same
  room after its last round, the registries holding them, and a shuffled deck.
\<close>

definition alice_done :: player where
  "alice_done =
     alice\<lparr>hand := [],
            board := \<lparr>row_top = [''As''], row_middle = [''9h'', ''Kd''],
                      row_bottom = [''Qs'', ''Qd'']\<rparr>,
            discards := [''7c'']\<rparr>"

definition room_ready :: room where
  "room_ready = room_ex\<lparr>players := [(''u1'', alice), (''u2'', bob\<lparr>ready := True\<rparr>)]\<rparr>"

definition room_last :: room where
  "room_last = room_ready\<lparr>roundIndex := 4\<rparr>"

definition store_ready :: store where
  "store_ready = Map.empty(''r1'' \<mapsto> room_ready)"

definition store_last :: store where
  "store_last = Map.empty(''r1'' \<mapsto> room_last)"


text \<open>
  A stand-in for the scoring that looks at the top rows only, a third player, and a room
  of three.
\<close>

definition scoring_top :: "int scoring" where
  "scoring_top =
     \<lparr>validateBoard = (\<lambda>b. (length (row_top b) < 3, ''top row incomplete'')),
      settlePairwiseDetailed =
        (\<lambda>a b. (int (length (row_top a)) - int (length (row_top b)),
                 int (length (row_top b)) - int (length (row_top a)))),
      total = (\<lambda>d. d)\<rparr>"

definition carol :: player where
  "carol = \<lparr>userId = ''u3'', name = ''Carol'', socketId = ''s3'',
            board = \<lparr>row_top = [''6s'', ''6d'', ''6h''], row_middle = [], row_bottom = []\<rparr>,
            hand = [], discards = [], ready = False\<rparr>"

definition room_three :: room where
  "room_three = room_ex\<lparr>players := [(''u1'', alice), (''u2'', bob), (''u3'', carol)]\<rparr>"


text \<open>
  The end of a hand in which nobody placed a card of the initial set: the room after the
  deal of the fourth round (eight cards in each hand, six on each board, three discards),
  the four commits that follow (Alice, Bob, Alice again, Bob again) with the players and
  rooms they leave, and the outcomes of the four calls of \<open>readyHandler\<close>, each on the
  registry the call before left.
\<close>

definition alice_r4 :: player where
  "alice_r4 = \<lparr>userId = ''u1'', name = ''Alice'', socketId = ''s1'',
      board = \<lparr>row_top = [''Ac'', ''Ad''], row_middle = [''9h'', ''9c''],
                row_bottom = [''Qs'', ''Qd'']\<rparr>,
      hand = [''As'', ''Kd'', ''7c'', ''2h'', ''3h'', ''4h'', ''5h'', ''6h''],
      discards = [''2c'', ''3c'', ''4c''], ready = False\<rparr>"

definition bob_r4 :: player where
  "bob_r4 = \<lparr>userId = ''u2'', name = ''Bob'', socketId = ''s2'',
      board = \<lparr>row_top = [''2s'', ''2d''], row_middle = [''Tc'', ''Td''],
                row_bottom = [''Jh'', ''Jd'']\<rparr>,
      hand = [''3s'', ''4d'', ''5c'', ''Jc'', ''Js'', ''8h'', ''8s'', ''8d''],
      discards = [''5d'', ''6c'', ''7d''], ready = False\<rparr>"

definition room_r4 :: room where
  "room_r4 = \<lparr>room_id = ''r1'', phase = Round, round_num = 1, roundIndex = 4,
              players = [(''u1'', alice_r4), (''u2'', bob_r4)],
              deck = [''8c'', ''Qc'', ''Kc'', ''3d'', ''6d'', ''9d'', ''7h'', ''Th'', ''Qh'',
                      ''Kh'', ''Ah'', ''4s'', ''5s'', ''6s'', ''7s'', ''9s'', ''Ts'', ''Ks'']\<rparr>"

definition store_r4 :: store where
  "store_r4 = Map.empty(''r1'' \<mapsto> room_r4)"

definition sock_bob :: socket where
  "sock_bob = \<lparr>sock_id = ''s2'', user_sub = ''u2''\<rparr>"

definition alice_c1 :: player where
  "alice_c1 = alice_r4\<lparr>hand := [''2h'', ''3h'', ''4h'', ''5h'', ''6h''],
      board := \<lparr>row_top = [''Ac'', ''Ad'', ''As''], row_middle = [''9h'', ''9c'', ''Kd''],
                 row_bottom = [''Qs'', ''Qd'']\<rparr>,
      discards := [''2c'', ''3c'', ''4c'', ''7c'']\<rparr>"

definition bob_c1 :: player where
  "bob_c1 = bob_r4\<lparr>hand := [''Jc'', ''Js'', ''8h'', ''8s'', ''8d''],
      board := \<lparr>row_top = [''2s'', ''2d'', ''3s''], row_middle = [''Tc'', ''Td'', ''4d''],
                 row_bottom = [''Jh'', ''Jd'']\<rparr>,
      discards := [''5d'', ''6c'', ''7d'', ''5c'']\<rparr>"

definition alice_c2 :: player where
  "alice_c2 = alice_c1\<lparr>hand := [''5h'', ''6h''],
      board := \<lparr>row_top = [''Ac'', ''Ad'', ''As''], row_middle = [''9h'', ''9c'', ''Kd'', ''2h''],
                 row_bottom = [''Qs'', ''Qd'', ''3h'']\<rparr>,
      discards := [''2c'', ''3c'', ''4c'', ''7c'', ''4h'']\<rparr>"

definition bob_c2 :: player where
  "bob_c2 = bob_c1\<lparr>hand := [''8s'', ''8d''],
      board := \<lparr>row_top = [''2s'', ''2d'', ''3s''], row_middle = [''Tc'', ''Td'', ''4d'', ''Jc''],
                 row_bottom = [''Jh'', ''Jd'', ''Js'']\<rparr>,
      discards := [''5d'', ''6c'', ''7d'', ''5c'', ''8h'']\<rparr>"

definition batch_a1 :: "placement list" where
  "batch_a1 = [\<lparr>p_row = ''top'', p_card = ''As''\<rparr>, \<lparr>p_row = ''middle'', p_card = ''Kd''\<rparr>]"

definition batch_b1 :: "placement list" where
  "batch_b1 = [\<lparr>p_row = ''top'', p_card = ''3s''\<rparr>, \<lparr>p_row = ''middle'', p_card = ''4d''\<rparr>]"

definition batch_a2 :: "placement list" where
  "batch_a2 = [\<lparr>p_row = ''middle'', p_card = ''2h''\<rparr>, \<lparr>p_row = ''bottom'', p_card = ''3h''\<rparr>]"

definition batch_b2 :: "placement list" where
  "batch_b2 = [\<lparr>p_row = ''middle'', p_card = ''Jc''\<rparr>, \<lparr>p_row = ''bottom'', p_card = ''Js''\<rparr>]"

definition replay1 :: "int outcome" where
  "replay1 = readyHandler rules_ex scoring_top store_r4 sock_alice ''r1'' (Some batch_a1) (Some ''7c'')"

definition replay2 :: "int outcome" where
  "replay2 = readyHandler rules_ex scoring_top (store_after replay1) sock_bob ''r1''
               (Some batch_b1) (Some ''5c'')"

definition replay3 :: "int outcome" where
  "replay3 = readyHandler rules_ex scoring_top (store_after replay2) sock_alice ''r1''
               (Some batch_a2) (Some ''4h'')"

definition replay4 :: "int outcome" where
  "replay4 = readyHandler rules_ex scoring_top (store_after replay3) sock_bob ''r1''
               (Some batch_b2) (Some ''8h'')"

definition room_r4a :: room where
  "room_r4a = room_r4\<lparr>players := [(''u1'', alice_c1\<lparr>ready := True\<rparr>), (''u2'', bob_r4)]\<rparr>"

definition room_rev1 :: room where
  "room_rev1 = room_r4\<lparr>phase := Reveal, players := [(''u1'', alice_c1), (''u2'', bob_c1)]\<rparr>"

definition room_rev1a :: room where
  "room_rev1a =
     room_r4\<lparr>phase := Reveal, players := [(''u1'', alice_c2\<lparr>ready := True\<rparr>), (''u2'', bob_c1)]\<rparr>"

definition room_rev2 :: room where
  "room_rev2 = room_r4\<lparr>phase := Reveal, players := [(''u1'', alice_c2), (''u2'', bob_c2)]\<rparr>"

section \<open>Facts about the primitives\<close>

lemma indexOf_None: "indexOf xs c = None \<longleftrightarrow> c \<notin> set xs"
  by (induction xs) auto

lemma indexOf_Some_less: "indexOf xs c = Some i \<Longrightarrow> i < length xs"
  by (induction xs arbitrary: i) (auto split: if_splits)

lemma indexOf_splice1: "indexOf xs c = Some i \<Longrightarrow> splice1 i xs = remove1 c xs"
proof (induction xs arbitrary: i)
  case Nil
  then show ?case by simp
next
  case (Cons x xs)
  show ?case
  proof (cases "x = c")
    case True
    with Cons.prems show ?thesis by (simp add: splice1_def)
  next
    case False
    with Cons.prems obtain j where j: "indexOf xs c = Some j" "i = Suc j"
      by auto
    from Cons.IH [OF j(1)] False j(2) show ?thesis
      by (simp add: splice1_def)
  qed
qed

lemma indexOf_mset: "indexOf xs c = Some i \<Longrightarrow> mset xs = add_mset c (mset (splice1 i xs))"
  by (simp add: indexOf_splice1 indexOf_None [symmetric] del: indexOf.simps)
     (metis indexOf_None insert_DiffM option.distinct(1) set_mset_mset)

lemma map_set_same: "map_of m k = Some v \<Longrightarrow> map_set k v m = m"
  by (induction m) (auto split: if_splits)

lemma map_get_map_set: "map_get (map_set k v m) k = Some v"
  by (induction m) (auto simp: map_get_def)

lemma map_get_map_set_other: "k' \<noteq> k \<Longrightarrow> map_get (map_set k v m) k' = map_get m k'"
  by (induction m) (auto simp: map_get_def)

lemma length_map_set:
  "length (map_set k v m) = (if k \<in> fst ` set m then length m else Suc (length m))"
  by (induction m) force+

section \<open>Facts about the placement loop\<close>

lemma place_step_Rejected:
  "place_step rules h b pl = Rejected e \<Longrightarrow>
     e = CardNotInHand (p_card pl) \<or> e = InvalidRow (p_row pl) \<or> e = RowFull (p_row pl)"
  by (auto simp: place_step_def split: option.splits slot.splits if_splits)

lemma place_step_Placed:
  assumes "place_step rules h b pl = Placed h' b'"
  shows "mset h = add_mset (p_card pl) (mset h') \<and>
         mset (board_cards b') = add_mset (p_card pl) (mset (board_cards b)) \<and>
         length h = Suc (length h') \<and>
         length (row_top b') + length (row_middle b') + length (row_bottom b') =
           Suc (length (row_top b) + length (row_middle b) + length (row_bottom b))"
proof -
  from assms obtain idx where idx: "indexOf h (p_card pl) = Some idx"
    and h': "h' = splice1 idx h"
    and b': "b' = board_push b (p_row pl) (p_card pl)"
    and rw: "p_row pl = ''top'' \<or> p_row pl = ''middle'' \<or> p_row pl = ''bottom''"
    by (auto simp: place_step_def board_get_def split: option.splits slot.splits if_splits)
  have m: "mset h = add_mset (p_card pl) (mset h')"
    using idx h' by (simp add: indexOf_mset)
  from m have "size (mset h) = Suc (size (mset h'))" by simp
  then have l: "length h = Suc (length h')" by simp
  from rw b' have "mset (board_cards b') = add_mset (p_card pl) (mset (board_cards b))"
    by (auto simp: board_push_def board_cards_def)
  moreover from rw b'
  have "length (row_top b') + length (row_middle b') + length (row_bottom b') =
           Suc (length (row_top b) + length (row_middle b) + length (row_bottom b))"
    by (auto simp: board_push_def)
  ultimately show ?thesis using m l by simp
qed

lemma place_all_Placed:
  "place_all rules h b pls = Placed h' b' \<Longrightarrow>
     mset h + mset (board_cards b) = mset h' + mset (board_cards b') \<and>
     length h = length h' + length pls \<and>
     length (row_top b') + length (row_middle b') + length (row_bottom b') =
       length (row_top b) + length (row_middle b) + length (row_bottom b) + length pls"
proof (induction pls arbitrary: h b)
  case Nil
  then show ?case by simp
next
  case (Cons pl pls)
  from Cons.prems obtain h1 b1 where s: "place_step rules h b pl = Placed h1 b1"
    and r: "place_all rules h1 b1 pls = Placed h' b'"
    by (auto split: step.splits)
  from place_step_Placed [OF s] Cons.IH [OF r] show ?case
    by simp
qed

section \<open>Facts about applyBatch\<close>

lemma applyBatch_not_Success:
  "fst (applyBatch rules room p placements discard) \<noteq> Success \<Longrightarrow>
   snd (applyBatch rules room p placements discard) = p"
  by (auto simp: applyBatch_def Let_def split: step.splits option.splits if_splits)

lemma applyBatch_Success:
  assumes "applyBatch rules room p placements discard = (Success, p')"
  shows "\<exists>h b. place_all rules (hand p) (board p)
                  (batch_list placements) = Placed h b \<and>
           board p' = b \<and>
           (if truthy discard
            then (\<exists>di. indexOf h (the discard) = Some di \<and> hand p' = splice1 di h \<and>
                       discards p' = discards p @ [the discard])
            else hand p' = h \<and> discards p' = discards p)"
  using assms
  by (auto simp: applyBatch_def Let_def split: step.splits option.splits if_splits)

section \<open>Facts about the example data\<close>

lemma phase_room_ex: "phase room_ex = Round"
  by (simp add: room_ex_def)

lemma need_rules_ex: "deal_placeCountPerRound rules_ex = 2"
  by (simp add: rules_ex_def)

lemma length_batch_ex: "length batch_ex = 2"
  by (simp add: batch_ex_def)

lemma store_ex_r1: "store_ex ''r1'' = Some room_ex"
  by (simp add: store_ex_def)

lemma room_ex_alice: "map_get (players room_ex) (user_sub sock_alice) = Some alice"
  by (simp add: map_get_def room_ex_def sock_alice_def)

lemma place_all_batch_ex:
  "place_all rules_ex (hand alice) (board alice) batch_ex =
     Placed [''7c'']
       \<lparr>row_top = [''As''], row_middle = [''9h'', ''Kd''], row_bottom = [''Qs'', ''Qd'']\<rparr>"
  by (simp add: place_step_def board_get_def board_push_def limit_def splice1_def
        rules_ex_def alice_def batch_ex_def)

lemma applyBatch_ex_bad_discard:
  "applyBatch rules_ex room_ex alice (Some batch_ex) (Some ''2h'') =
     (Failed (DiscardNotInHand ''2h''), alice)"
  by (simp add: applyBatch_def batch_count_def batch_list_def phase_room_ex need_rules_ex
        place_all_batch_ex truthy_def length_batch_ex)

lemma applyBatch_ex_ok:
  assumes "phase r = Round"
  shows "applyBatch rules_ex r alice (Some batch_ex) (Some ''7c'') = (Success, alice_done)"
proof -
  have "applyBatch rules_ex r alice (Some batch_ex) (Some ''7c'') =
     (Success,
      alice\<lparr>hand := [],
             board := \<lparr>row_top = [''As''], row_middle = [''9h'', ''Kd''],
                       row_bottom = [''Qs'', ''Qd'']\<rparr>,
             discards := discards alice @ [''7c'']\<rparr>)"
    using assms
    by (simp add: applyBatch_def batch_count_def batch_list_def need_rules_ex
          place_all_batch_ex truthy_def length_batch_ex splice1_def)
  also have "alice\<lparr>hand := [],
             board := \<lparr>row_top = [''As''], row_middle = [''9h'', ''Kd''],
                       row_bottom = [''Qs'', ''Qd'']\<rparr>,
             discards := discards alice @ [''7c'']\<rparr> = alice_done"
    by (simp add: alice_done_def alice_def)
  finally show ?thesis .
qed

section \<open>Atomicity of a rejected batch\<close>

text \<open>
  C1. If \<open>applyBatch\<close> returns a failure for the player found under the caller's id,
  the player it leaves is the player it was given (hand, board and discards included),
  and \<open>readyHandler\<close> leaves the whole registry as it was, so no \<open>ready\<close> flag is set;
  it sends the message to the caller only.
\<close>

theorem applyBatch_failure_atomic:
  assumes room: "st roomId = Some room"
    and pl: "map_get (players room) (user_sub sock) = Some p"
    and fail: "applyBatch rules room p placements discard = (Failed e, p')"
  shows "p' = p \<and> hand p' = hand p \<and> board p' = board p \<and> discards p' = discards p \<and>
         readyHandler rules sc st sock roomId placements discard =
           \<lparr>store_after = st, emitted = [ErrorEv (sock_id sock) e], thrown = None\<rparr> \<and>
         (case store_after (readyHandler rules sc st sock roomId placements discard) roomId of
            None \<Rightarrow> False
          | Some room' \<Rightarrow>
              map_get (players room') (user_sub sock) = Some p \<and>
              map (\<lambda>kp. ready (snd kp)) (players room') =
              map (\<lambda>kp. ready (snd kp)) (players room))"
proof -
  have p': "p' = p"
    using applyBatch_not_Success [of rules room p placements discard] fail by simp
  have wb: "room\<lparr>players := map_set (user_sub sock) p (players room)\<rparr> = room"
    using pl by (simp add: map_get_def map_set_same)
  have st: "st(roomId \<mapsto> room) = st"
    using room by (simp add: map_upd_triv)
  have rh: "readyHandler rules sc st sock roomId placements discard =
           \<lparr>store_after = st, emitted = [ErrorEv (sock_id sock) e], thrown = None\<rparr>"
    using room pl fail p' by (simp add: readyHandler_def wb st)
  show ?thesis
    using p' rh room pl by simp
qed

theorem applyBatch_failure_atomic_witness:
  "applyBatch rules_ex room_ex alice (Some batch_ex) (Some ''2h'') =
     (Failed (DiscardNotInHand ''2h''), alice) \<and>
   readyHandler rules_ex scoring_ex store_ex sock_alice ''r1'' (Some batch_ex) (Some ''2h'') =
     \<lparr>store_after = store_ex,
      emitted = [ErrorEv (sock_id sock_alice) (DiscardNotInHand ''2h'')], thrown = None\<rparr>"
proof -
  note h = applyBatch_failure_atomic
    [where st = store_ex and roomId = "''r1''" and sc = scoring_ex,
     OF store_ex_r1 room_ex_alice applyBatch_ex_bad_discard]
  from h have "readyHandler rules_ex scoring_ex store_ex sock_alice ''r1'' (Some batch_ex)
      (Some ''2h'') =
     \<lparr>store_after = store_ex,
      emitted = [ErrorEv (sock_id sock_alice) (DiscardNotInHand ''2h'')], thrown = None\<rparr>"
    by blast
  with applyBatch_ex_bad_discard show ?thesis by blast
qed

section \<open>Conservation of cards by an accepted batch\<close>

text \<open>
  C3. After a successful \<open>applyBatch\<close> the quantity
  \<open>|hand| + |top| + |middle| + |bottom| + |discards|\<close> is what it was before, and so is
  the multiset of these cards: the rows gain one card for each placement, the discards
  gain the discard if there is one, and the hand loses exactly these cards.
\<close>

theorem applyBatch_conserves_cards:
  assumes ok: "applyBatch rules room p placements discard = (Success, p')"
  shows "length (hand p') + length (row_top (board p')) + length (row_middle (board p')) +
           length (row_bottom (board p')) + length (discards p') =
         length (hand p) + length (row_top (board p)) + length (row_middle (board p)) +
           length (row_bottom (board p)) + length (discards p) \<and>
         mset (hand p') + mset (board_cards (board p')) + mset (discards p') =
         mset (hand p) + mset (board_cards (board p)) + mset (discards p) \<and>
         length (row_top (board p')) + length (row_middle (board p')) +
           length (row_bottom (board p')) =
         length (row_top (board p)) + length (row_middle (board p)) +
           length (row_bottom (board p)) +
           length (batch_list placements) \<and>
         discards p' = discards p @ (if truthy discard then [the discard] else [])"
proof -
  from applyBatch_Success [OF ok] obtain h b where
    pa: "place_all rules (hand p) (board p)
           (batch_list placements) = Placed h b"
    and b: "board p' = b"
    and d: "if truthy discard
            then (\<exists>di. indexOf h (the discard) = Some di \<and> hand p' = splice1 di h \<and>
                       discards p' = discards p @ [the discard])
            else hand p' = h \<and> discards p' = discards p"
    by blast
  note inv = place_all_Placed [OF pa]
  show ?thesis
  proof (cases "truthy discard")
    case True
    with d obtain di where di: "indexOf h (the discard) = Some di"
      and h': "hand p' = splice1 di h" and ds: "discards p' = discards p @ [the discard]"
      by auto
    have m: "mset h = add_mset (the discard) (mset (hand p'))"
      using di h' by (simp add: indexOf_mset)
    then have "size (mset h) = Suc (size (mset (hand p')))" by simp
    then have l: "length h = Suc (length (hand p'))" by simp
    show ?thesis using inv b ds m l True by simp
  next
    case False
    with d inv b show ?thesis by simp
  qed
qed

theorem applyBatch_conserves_cards_witness:
  "applyBatch rules_ex room_ex alice (Some batch_ex) (Some ''7c'') = (Success, alice_done) \<and>
   length (hand alice_done) + length (row_top (board alice_done)) +
     length (row_middle (board alice_done)) + length (row_bottom (board alice_done)) +
     length (discards alice_done) =
   length (hand alice) + length (row_top (board alice)) + length (row_middle (board alice)) +
     length (row_bottom (board alice)) + length (discards alice) \<and>
   discards alice_done = discards alice @ [''7c'']"
proof -
  note ok = applyBatch_ex_ok [OF phase_room_ex]
  have t: "truthy (Some ''7c'')" by (simp add: truthy_def)
  note h = applyBatch_conserves_cards [OF ok]
  from h have c:
    "length (hand alice_done) + length (row_top (board alice_done)) +
       length (row_middle (board alice_done)) + length (row_bottom (board alice_done)) +
       length (discards alice_done) =
     length (hand alice) + length (row_top (board alice)) + length (row_middle (board alice)) +
       length (row_bottom (board alice)) + length (discards alice)"
    by blast
  from h have "discards alice_done =
      discards alice @ (if truthy (Some ''7c'') then [the (Some ''7c'')] else [])"
    by blast
  with t have d: "discards alice_done = discards alice @ [''7c'']"
    by simp
  from ok c d show ?thesis by blast
qed

section \<open>The requirements of a pineapple round\<close>

text \<open>
  C4 (as amended). In a room whose phase is not initial-set, \<open>applyBatch\<close> fails with
  WrongPlacementCount whenever the number of placements differs from
  \<open>placeCountPerRound\<close>; it fails with DiscardRequired whenever the number of placements
  is right and no discard is submitted; and it succeeds only with exactly
  \<open>placeCountPerRound\<close> placements and a discard.
\<close>

theorem applyBatch_round_requirements:
  assumes "phase room \<noteq> InitialSet"
  shows "(batch_count placements \<noteq> deal_placeCountPerRound rules \<longrightarrow>
           applyBatch rules room p placements discard =
             (Failed (WrongPlacementCount (deal_placeCountPerRound rules)), p)) \<and>
         (batch_count placements = deal_placeCountPerRound rules \<and> \<not> truthy discard \<longrightarrow>
           applyBatch rules room p placements discard = (Failed DiscardRequired, p)) \<and>
         (fst (applyBatch rules room p placements discard) = Success \<longrightarrow>
           batch_count placements = deal_placeCountPerRound rules \<and> truthy discard)"
  using assms
  by (auto simp: applyBatch_def Let_def)

theorem applyBatch_round_requirements_witness:
  "phase room_ex \<noteq> InitialSet \<and>
   applyBatch rules_ex room_ex alice (Some batch_ex) None = (Failed DiscardRequired, alice) \<and>
   applyBatch rules_ex room_ex alice (Some []) (Some ''7c'') = (Failed (WrongPlacementCount 2), alice)"
proof -
  have ph: "phase room_ex \<noteq> InitialSet"
    by (simp add: phase_room_ex)
  have c1: "batch_count (Some batch_ex) = deal_placeCountPerRound rules_ex \<and> \<not> truthy None"
    by (simp add: batch_count_def length_batch_ex need_rules_ex truthy_def)
  have c2: "batch_count (Some []) \<noteq> deal_placeCountPerRound rules_ex"
    by (simp add: batch_count_def need_rules_ex)
  from applyBatch_round_requirements [OF ph, of "Some batch_ex" rules_ex alice None] c1
  have r1: "applyBatch rules_ex room_ex alice (Some batch_ex) None = (Failed DiscardRequired, alice)"
    by blast
  from applyBatch_round_requirements [OF ph, of "Some []" rules_ex alice "Some ''7c''"] c2
  have r2: "applyBatch rules_ex room_ex alice (Some []) (Some ''7c'') =
      (Failed (WrongPlacementCount (deal_placeCountPerRound rules_ex)), alice)"
    by blast
  from ph r1 r2 show ?thesis by (simp add: need_rules_ex)
qed

text \<open>
  The count is checked before the discard: a batch with a wrong count and no discard
  fails with WrongPlacementCount, not with DiscardRequired.
\<close>

theorem applyBatch_discard_required_counterexample:
  "phase room_ex \<noteq> InitialSet \<and> \<not> truthy None \<and>
   fst (applyBatch rules_ex room_ex alice (Some []) None) = Failed (WrongPlacementCount 2) \<and>
   fst (applyBatch rules_ex room_ex alice (Some []) None) \<noteq> Failed DiscardRequired"
  by (simp add: applyBatch_def batch_count_def phase_room_ex need_rules_ex truthy_def)

section \<open>The initial set\<close>

lemma place_all_le_hand:
  "place_all rules h b pls = Placed h' b' \<Longrightarrow> length pls \<le> length h"
  using place_all_Placed [of rules h b pls h' b'] by simp

lemma place_all_bottom:
  "length (row_bottom b) + length cs \<le> layout_bottom rules \<Longrightarrow>
   place_all rules (cs @ rest) b (map (\<lambda>c. \<lparr>p_row = ''bottom'', p_card = c\<rparr>) cs) =
     Placed rest (b\<lparr>row_bottom := row_bottom b @ cs\<rparr>)"
proof (induction cs arbitrary: b)
  case Nil
  then show ?case by simp
next
  case (Cons c cs)
  have s: "place_step rules ((c # cs) @ rest) b \<lparr>p_row = ''bottom'', p_card = c\<rparr> =
      Placed (cs @ rest) (b\<lparr>row_bottom := row_bottom b @ [c]\<rparr>)"
    using Cons.prems
    by (simp add: place_step_def board_get_def board_push_def limit_def splice1_def)
  have "length (row_bottom (b\<lparr>row_bottom := row_bottom b @ [c]\<rparr>)) + length cs \<le> layout_bottom rules"
    using Cons.prems by simp
  from Cons.IH [OF this] s show ?case by simp
qed

text \<open>
  C5. In a room whose phase is initial-set, \<open>applyBatch\<close> fails with DiscardNotAllowed
  whenever a discard is submitted. Without one, the batch is accepted exactly when the
  per-placement checks pass, whatever the number of placements: none at all is accepted,
  an accepted batch never has more placements than the hand has cards, and every number
  up to the size of the hand is accepted when it is placed where there is room (here: the
  first cards of the hand into the bottom row).
\<close>

theorem applyBatch_initial_set:
  assumes init: "phase room = InitialSet"
  shows "(truthy discard \<longrightarrow>
            applyBatch rules room p placements discard = (Failed DiscardNotAllowed, p)) \<and>
         (\<not> truthy discard \<longrightarrow>
            (fst (applyBatch rules room p placements discard) = Success) =
            (\<exists>h b. place_all rules (hand p) (board p) (batch_list placements) = Placed h b)) \<and>
         (\<not> truthy discard \<longrightarrow>
            applyBatch rules room p None discard = (Success, p) \<and>
            applyBatch rules room p (Some []) discard = (Success, p)) \<and>
         (fst (applyBatch rules room p placements discard) = Success \<longrightarrow>
            batch_count placements \<le> length (hand p)) \<and>
         (\<forall>n. \<not> truthy discard \<and> n \<le> length (hand p) \<and>
               length (row_bottom (board p)) + n \<le> layout_bottom rules \<longrightarrow>
            fst (applyBatch rules room p
                   (Some (map (\<lambda>c. \<lparr>p_row = ''bottom'', p_card = c\<rparr>) (take n (hand p))))
                   discard) = Success)"
proof -
  have a: "truthy discard \<longrightarrow>
            applyBatch rules room p placements discard = (Failed DiscardNotAllowed, p)"
    using init by (simp add: applyBatch_def)
  have b: "\<not> truthy discard \<longrightarrow>
            (fst (applyBatch rules room p placements discard) = Success) =
            (\<exists>h b. place_all rules (hand p) (board p) (batch_list placements) = Placed h b)"
    using init by (auto simp: applyBatch_def split: step.splits)
  have c: "\<not> truthy discard \<longrightarrow>
            applyBatch rules room p None discard = (Success, p) \<and>
            applyBatch rules room p (Some []) discard = (Success, p)"
    using init by (simp add: applyBatch_def batch_list_def)
  have d: "fst (applyBatch rules room p placements discard) = Success \<longrightarrow>
            batch_count placements \<le> length (hand p)"
  proof
    assume "fst (applyBatch rules room p placements discard) = Success"
    then obtain p' where "applyBatch rules room p placements discard = (Success, p')"
      by (cases "applyBatch rules room p placements discard") simp
    from applyBatch_Success [OF this] obtain h b where
      "place_all rules (hand p) (board p) (batch_list placements) = Placed h b"
      by blast
    from place_all_le_hand [OF this] show "batch_count placements \<le> length (hand p)"
      by (simp add: batch_count_def batch_list_def split: option.splits)
  qed
  have e: "\<forall>n. \<not> truthy discard \<and> n \<le> length (hand p) \<and>
               length (row_bottom (board p)) + n \<le> layout_bottom rules \<longrightarrow>
            fst (applyBatch rules room p
                   (Some (map (\<lambda>c. \<lparr>p_row = ''bottom'', p_card = c\<rparr>) (take n (hand p))))
                   discard) = Success"
  proof (intro allI impI)
    fix n
    assume h: "\<not> truthy discard \<and> n \<le> length (hand p) \<and>
               length (row_bottom (board p)) + n \<le> layout_bottom rules"
    then have "length (row_bottom (board p)) + length (take n (hand p)) \<le> layout_bottom rules"
      by simp
    from place_all_bottom [OF this, of "drop n (hand p)"]
    have "place_all rules (hand p) (board p)
            (map (\<lambda>c. \<lparr>p_row = ''bottom'', p_card = c\<rparr>) (take n (hand p))) =
          Placed (drop n (hand p)) ((board p)\<lparr>row_bottom := row_bottom (board p) @ take n (hand p)\<rparr>)"
      by simp
    with h init show "fst (applyBatch rules room p
                   (Some (map (\<lambda>c. \<lparr>p_row = ''bottom'', p_card = c\<rparr>) (take n (hand p))))
                   discard) = Success"
      by (simp add: applyBatch_def batch_list_def)
  qed
  from a b c d e show ?thesis by blast
qed

theorem applyBatch_initial_set_witness:
  "phase (room_ex\<lparr>phase := InitialSet\<rparr>) = InitialSet \<and> truthy (Some ''7c'') \<and>
   applyBatch rules_ex (room_ex\<lparr>phase := InitialSet\<rparr>) alice (Some batch_ex) (Some ''7c'') =
     (Failed DiscardNotAllowed, alice) \<and>
   applyBatch rules_ex (room_ex\<lparr>phase := InitialSet\<rparr>) alice (Some []) None = (Success, alice)"
proof -
  have ph: "phase (room_ex\<lparr>phase := InitialSet\<rparr>) = InitialSet" by simp
  have t: "truthy (Some ''7c'')" and f: "\<not> truthy None" by (simp_all add: truthy_def)
  from applyBatch_initial_set [OF ph, of "Some ''7c''" rules_ex alice "Some batch_ex"] t
  have r1: "applyBatch rules_ex (room_ex\<lparr>phase := InitialSet\<rparr>) alice (Some batch_ex) (Some ''7c'') =
     (Failed DiscardNotAllowed, alice)"
    by blast
  from applyBatch_initial_set [OF ph, of None rules_ex alice None] f
  have r2: "applyBatch rules_ex (room_ex\<lparr>phase := InitialSet\<rparr>) alice (Some []) None = (Success, alice)"
    by blast
  from ph t r1 r2 show ?thesis by blast
qed

section \<open>The order of the checks\<close>

lemma place_step_card_first:
  "p_card pl \<notin> set h \<Longrightarrow> place_step rules h b pl = Rejected (CardNotInHand (p_card pl))"
  by (simp add: place_step_def indexOf_None [symmetric] del: indexOf.simps)

lemma place_step_row_second:
  "p_card pl \<in> set h \<Longrightarrow> board_get b (p_row pl) = Undefined \<Longrightarrow>
   place_step rules h b pl = Rejected (InvalidRow (p_row pl))"
  by (cases "indexOf h (p_card pl)") (simp_all add: place_step_def indexOf_None)

lemma place_step_capacity_third:
  "p_card pl \<in> set h \<Longrightarrow> board_get b (p_row pl) = Row cs \<Longrightarrow>
   place_step rules h b pl =
     (if limit rules (p_row pl) \<le> length cs then Rejected (RowFull (p_row pl))
      else Placed (remove1 (p_card pl) h) (board_push b (p_row pl) (p_card pl)))"
  by (cases "indexOf h (p_card pl)") (simp_all add: place_step_def indexOf_None indexOf_splice1)

lemma place_all_hand:
  "place_all rules h b pls = Placed h' b' \<Longrightarrow> mset h = mset h' + mset (map p_card pls)"
proof (induction pls arbitrary: h b)
  case Nil
  then show ?case by simp
next
  case (Cons pl pls)
  from Cons.prems obtain h1 b1 where s: "place_step rules h b pl = Placed h1 b1"
    and r: "place_all rules h1 b1 pls = Placed h' b'"
    by (auto split: step.splits)
  from place_step_Placed [OF s] Cons.IH [OF r] show ?case
    by simp
qed

lemma applyBatch_discard_of_placed_card:
  assumes d: "distinct (hand p)" and t: "truthy discard"
    and m: "the discard \<in> p_card ` set (batch_list placements)"
  shows "fst (applyBatch rules room p placements discard) \<noteq> Success"
proof
  assume "fst (applyBatch rules room p placements discard) = Success"
  then obtain p' where "applyBatch rules room p placements discard = (Success, p')"
    by (cases "applyBatch rules room p placements discard") simp
  from applyBatch_Success [OF this] t obtain h b di where
    pa: "place_all rules (hand p) (board p) (batch_list placements) = Placed h b"
    and di: "indexOf h (the discard) = Some di"
    by auto
  from di have "the discard \<in> set h"
    using indexOf_None [of h "the discard"] by simp
  then have c1: "1 \<le> count (mset h) (the discard)"
    by (metis count_greater_eq_one_iff set_mset_mset)
  from m have "the discard \<in> set (map p_card (batch_list placements))"
    by simp
  then have c2: "1 \<le> count (mset (map p_card (batch_list placements))) (the discard)"
    by (metis count_greater_eq_one_iff set_mset_mset)
  have "count (mset (hand p)) (the discard) =
        count (mset h) (the discard) +
        count (mset (map p_card (batch_list placements))) (the discard)"
    by (metis place_all_hand [OF pa] count_union)
  with c1 c2 have "2 \<le> count (mset (hand p)) (the discard)"
    by linarith
  with d show False
    by (simp add: distinct_count_atmost_1 split: if_splits)
qed

text \<open>
  C6. The checks of a placement run in the order card, row, capacity, and the discard is
  looked up in the hand the placements have reduced (the lemmas above). The row check
  misses the names every object inherits: for the row \<open>constructor\<close> the batch is not
  rejected with InvalidRow; \<open>board[row].push\<close> is not a function and the call throws.
\<close>

theorem applyBatch_inherited_row_throws:
  "applyBatch rules_ex room_ex alice
     (Some [\<lparr>p_row = ''constructor'', p_card = ''As''\<rparr>, \<lparr>p_row = ''middle'', p_card = ''Kd''\<rparr>])
     (Some ''7c'') = (Threw NotAFunction, alice)"
proof -
  have s: "place_step rules_ex (hand alice) (board alice) \<lparr>p_row = ''constructor'', p_card = ''As''\<rparr> =
      Crashed [''Kd'', ''7c'']"
    by (simp add: place_step_def board_get_def limit_def splice1_def object_prototype_def
          rules_ex_def alice_def)
  show ?thesis
    by (simp add: applyBatch_def batch_count_def batch_list_def phase_room_ex need_rules_ex
          truthy_def s)
qed

section \<open>The public room state\<close>

lemma public_player_of_eq: "(public_player_of p = public_player_of q) = same_public p q"
  by (auto simp: public_player_of_def same_public_def)

lemma map_public_eq:
  "(map (\<lambda>kp. public_player_of (snd kp)) xs = map (\<lambda>kp. public_player_of (snd kp)) ys) =
   list_all2 same_public (map snd xs) (map snd ys)"
proof (induction xs arbitrary: ys)
  case Nil
  then show ?case by auto
next
  case (Cons x xs)
  then show ?case
    by (cases ys) (auto simp: public_player_of_eq)
qed

lemma room_state_payload_eq:
  "(room_state_payload r1 = room_state_payload r2) = same_public_room r1 r2"
  by (auto simp: room_state_payload_def same_public_room_def map_public_eq)

text \<open>
  C8. The \<open>room_state\<close> event carries, for each player, the id, the name, the three row
  lengths and the ready flag, and nothing else of the player. Two registries send the same
  event for a room exactly when their rooms agree on id, phase, round and, player by
  player, on these values: no card of a hand, a row or the discards has any influence.
\<close>

theorem room_state_redacted:
  assumes "st1 roomId = Some r1" and "st2 roomId = Some r2"
  shows "emitRoomState st1 roomId = [RoomStateEv roomId (room_state_payload r1)] \<and>
         rs_players (room_state_payload r1) =
           map (\<lambda>kp. \<lparr>pp_userId = userId (snd kp), pp_name = name (snd kp),
                       pp_placed = \<lparr>placed_top = length (row_top (board (snd kp))),
                                    placed_middle = length (row_middle (board (snd kp))),
                                    placed_bottom = length (row_bottom (board (snd kp)))\<rparr>,
                       pp_ready = ready (snd kp)\<rparr>) (players r1) \<and>
         ((emitRoomState st1 roomId :: 'd event list) = emitRoomState st2 roomId) =
           same_public_room r1 r2"
  using assms
  by (simp add: emitRoomState_def room_state_payload_eq)
     (simp add: room_state_payload_def public_player_of_def)

theorem room_state_redacted_witness:
  "hand alice \<noteq> hand alice_other \<and> board alice \<noteq> board alice_other \<and>
   discards alice \<noteq> discards alice_other \<and>
   (emitRoomState store_ex ''r1'' :: int event list) = emitRoomState store_other ''r1''"
proof -
  have b: "store_other ''r1'' =
           Some (room_ex\<lparr>players := [(''u1'', alice_other), (''u2'', bob)], deck := []\<rparr>)"
    by (simp add: store_other_def)
  have c: "same_public_room room_ex
             (room_ex\<lparr>players := [(''u1'', alice_other), (''u2'', bob)], deck := []\<rparr>)"
    by (simp add: same_public_room_def same_public_def room_ex_def alice_def alice_other_def)
  have d: "hand alice \<noteq> hand alice_other \<and> board alice \<noteq> board alice_other \<and>
      discards alice \<noteq> discards alice_other"
    by (simp add: alice_def alice_other_def)
  from room_state_redacted
    [where ?st1.0 = store_ex and ?st2.0 = store_other and roomId = "''r1''", OF store_ex_r1 b] c d
  show ?thesis by blast
qed

section \<open>Joining a room twice\<close>

lemma map_get_in_keys: "map_get m k = Some v \<Longrightarrow> k \<in> fst ` set m"
  by (simp add: map_get_def) (metis map_of_eq_None_iff option.distinct(1))

lemma length_players_room_ex: "length (players room_ex) = 2"
  by (simp add: room_ex_def)

text \<open>
  C9. When a player whose id is already in the room joins again: below \<open>players.max\<close>
  the join succeeds, the entry under the id is replaced by a fresh player (empty rows,
  hand and discards, not ready), the number of players and the other entries stay as they
  were; at \<open>players.max\<close> the join is rejected with RoomFull and nothing changes.
\<close>

theorem joinRoomHandler_rejoin:
  assumes room: "st roomId = Some room"
    and present: "map_get (players room) (user_sub sock) = Some old"
  shows "(length (players room) < players_max rules \<longrightarrow>
            (joinRoomHandler rules st sock roomId nm :: 'd outcome) =
              \<lparr>store_after =
                 st(roomId \<mapsto> room\<lparr>players := map_set (user_sub sock) (fresh_player sock nm)
                                                     (players room)\<rparr>),
               emitted =
                 [RoomStateEv roomId
                    (room_state_payload
                       (room\<lparr>players := map_set (user_sub sock) (fresh_player sock nm)
                                              (players room)\<rparr>))],
               thrown = None\<rparr> \<and>
            map_get (map_set (user_sub sock) (fresh_player sock nm) (players room)) (user_sub sock) =
              Some (fresh_player sock nm) \<and>
            length (map_set (user_sub sock) (fresh_player sock nm) (players room)) =
              length (players room) \<and>
            (\<forall>k. k \<noteq> user_sub sock \<longrightarrow>
               map_get (map_set (user_sub sock) (fresh_player sock nm) (players room)) k =
               map_get (players room) k) \<and>
            board (fresh_player sock nm) = \<lparr>row_top = [], row_middle = [], row_bottom = []\<rparr> \<and>
            hand (fresh_player sock nm) = [] \<and> discards (fresh_player sock nm) = [] \<and>
            ready (fresh_player sock nm) = False) \<and>
         (players_max rules \<le> length (players room) \<longrightarrow>
            (joinRoomHandler rules st sock roomId nm :: 'd outcome) =
              \<lparr>store_after = st, emitted = [ErrorEv (sock_id sock) RoomFull], thrown = None\<rparr>)"
proof -
  have len: "length (map_set (user_sub sock) (fresh_player sock nm) (players room)) =
              length (players room)"
    using map_get_in_keys [OF present] by (simp add: length_map_set)
  have fresh: "board (fresh_player sock nm) = \<lparr>row_top = [], row_middle = [], row_bottom = []\<rparr> \<and>
            hand (fresh_player sock nm) = [] \<and> discards (fresh_player sock nm) = [] \<and>
            ready (fresh_player sock nm) = False"
    by (simp add: fresh_player_def)
  have ok: "length (players room) < players_max rules \<Longrightarrow>
            (joinRoomHandler rules st sock roomId nm :: 'd outcome) =
              \<lparr>store_after =
                 st(roomId \<mapsto> room\<lparr>players := map_set (user_sub sock) (fresh_player sock nm)
                                                     (players room)\<rparr>),
               emitted =
                 [RoomStateEv roomId
                    (room_state_payload
                       (room\<lparr>players := map_set (user_sub sock) (fresh_player sock nm)
                                              (players room)\<rparr>))],
               thrown = None\<rparr>"
    using room by (simp add: joinRoomHandler_def emitRoomState_def Let_def)
  have full: "players_max rules \<le> length (players room) \<Longrightarrow>
            (joinRoomHandler rules st sock roomId nm :: 'd outcome) =
              \<lparr>store_after = st, emitted = [ErrorEv (sock_id sock) RoomFull], thrown = None\<rparr>"
    using room by (simp add: joinRoomHandler_def)
  from len fresh ok full show ?thesis
    by (simp add: map_get_map_set map_get_map_set_other)
qed

theorem joinRoomHandler_rejoin_witness:
  "length (players room_ex) < players_max rules_ex \<and>
   hand alice \<noteq> [] \<and>
   map_get (map_set (user_sub sock_alice) (fresh_player sock_alice None) (players room_ex))
     (user_sub sock_alice) = Some (fresh_player sock_alice None) \<and>
   hand (fresh_player sock_alice None) = [] \<and>
   players_max (rules_ex\<lparr>players_max := 2\<rparr>) \<le> length (players room_ex) \<and>
   (joinRoomHandler (rules_ex\<lparr>players_max := 2\<rparr>) store_ex sock_alice ''r1'' None :: int outcome) =
     \<lparr>store_after = store_ex, emitted = [ErrorEv (sock_id sock_alice) RoomFull], thrown = None\<rparr>"
proof -
  have a: "length (players room_ex) < players_max rules_ex"
    by (simp add: length_players_room_ex rules_ex_def)
  have b: "players_max (rules_ex\<lparr>players_max := 2\<rparr>) \<le> length (players room_ex)"
    by (simp add: length_players_room_ex)
  have c: "hand alice \<noteq> []" by (simp add: alice_def)
  note t1 = joinRoomHandler_rejoin
    [where st = store_ex and roomId = "''r1''" and rules = rules_ex and nm = None,
     OF store_ex_r1 room_ex_alice]
  note t2 = joinRoomHandler_rejoin
    [where st = store_ex and roomId = "''r1''" and rules = "rules_ex\<lparr>players_max := 2\<rparr>"
       and nm = None and ?'d = int,
     OF store_ex_r1 room_ex_alice]
  from t1 a have
    "map_get (map_set (user_sub sock_alice) (fresh_player sock_alice None) (players room_ex))
       (user_sub sock_alice) = Some (fresh_player sock_alice None) \<and>
     hand (fresh_player sock_alice None) = []"
    by blast
  moreover from t2 b have
    "(joinRoomHandler (rules_ex\<lparr>players_max := 2\<rparr>) store_ex sock_alice ''r1'' None :: int outcome) =
     \<lparr>store_after = store_ex, emitted = [ErrorEv (sock_id sock_alice) RoomFull], thrown = None\<rparr>"
    by blast
  ultimately show ?thesis using a b c by blast
qed

section \<open>The legacy placeHandler\<close>

lemma place_loop_Done:
  "place_loop rules p pls = (Done, p') \<Longrightarrow>
     place_all rules (hand p) (board p) pls = Placed (hand p') (board p') \<and>
     p' = p\<lparr>hand := hand p', board := board p'\<rparr>"
proof (induction pls arbitrary: p)
  case Nil
  then show ?case by simp
next
  case (Cons pl pls)
  from Cons.prems obtain h1 b1 where s: "place_step rules (hand p) (board p) pl = Placed h1 b1"
    and r: "place_loop rules (p\<lparr>hand := h1, board := b1\<rparr>) pls = (Done, p')"
    by (auto split: step.splits)
  from Cons.IH [OF r] s show ?case by simp
qed

lemma place_loop_append:
  "place_loop rules p pre = (Done, pk) \<Longrightarrow>
   place_loop rules p (pre @ rest) = place_loop rules pk rest"
proof (induction pre arbitrary: p)
  case Nil
  then show ?case by simp
next
  case (Cons pl pre)
  from Cons.prems obtain h1 b1 where s: "place_step rules (hand p) (board p) pl = Placed h1 b1"
    and r: "place_loop rules (p\<lparr>hand := h1, board := b1\<rparr>) pre = (Done, pk)"
    by (auto split: step.splits)
  from Cons.IH [OF r] s show ?case by simp
qed

lemma place_all_append:
  "place_all rules h b pre = Placed h1 b1 \<Longrightarrow>
   place_all rules h b (pre @ rest) = place_all rules h1 b1 rest"
proof (induction pre arbitrary: h b)
  case Nil
  then show ?case by simp
next
  case (Cons pl pre)
  then show ?case by (auto split: step.splits)
qed

lemma place_loop_ex:
  "place_loop rules_ex alice [\<lparr>p_row = ''top'', p_card = ''As''\<rparr>] = (Done, alice_placed)"
  by (simp add: place_step_def board_get_def board_push_def limit_def splice1_def
        rules_ex_def alice_def alice_placed_def)

lemma place_step_ex_missing:
  "place_step rules_ex (hand alice_placed) (board alice_placed)
     \<lparr>p_row = ''top'', p_card = ''Zz''\<rparr> = Rejected (CardNotInHand ''Zz'')"
  by (simp add: place_step_def alice_def alice_placed_def)

text \<open>
  C10. When the first placements of a list pass and the next one is rejected, the legacy
  \<open>placeHandler\<close> sends the message and leaves the player as the earlier placements
  left it: the hand is shorter and the rows are longer by their number, so the player has
  changed as soon as there is one of them. \<open>applyBatch\<close> on the same list leaves the
  player as it was.
\<close>

theorem placeHandler_partial_commit:
  assumes room: "st roomId = Some room"
    and pl: "map_get (players room) (user_sub sock) = Some p"
    and pre: "place_loop rules p pre = (Done, pk)"
    and bad: "place_step rules (hand pk) (board pk) x = Rejected e"
  shows "(placeHandler rules st sock roomId (Some (pre @ x # rest)) :: 'd outcome) =
           \<lparr>store_after =
              st(roomId \<mapsto> room\<lparr>players := map_set (user_sub sock) pk (players room)\<rparr>),
            emitted = [ErrorEv (sock_id sock) e], thrown = None\<rparr> \<and>
         place_all rules (hand p) (board p) pre = Placed (hand pk) (board pk) \<and>
         length (hand pk) + length pre = length (hand p) \<and>
         length (row_top (board pk)) + length (row_middle (board pk)) +
           length (row_bottom (board pk)) =
         length (row_top (board p)) + length (row_middle (board p)) +
           length (row_bottom (board p)) + length pre \<and>
         (pre \<noteq> [] \<longrightarrow> pk \<noteq> p) \<and>
         snd (applyBatch rules room p (Some (pre @ x # rest)) discard) = p"
proof -
  have loop: "place_loop rules p (pre @ x # rest) = (Stopped e, pk)"
    using place_loop_append [OF pre, of "x # rest"] bad by simp
  have h: "(placeHandler rules st sock roomId (Some (pre @ x # rest)) :: 'd outcome) =
           \<lparr>store_after =
              st(roomId \<mapsto> room\<lparr>players := map_set (user_sub sock) pk (players room)\<rparr>),
            emitted = [ErrorEv (sock_id sock) e], thrown = None\<rparr>"
    using room pl loop by (simp add: placeHandler_def batch_list_def)
  from place_loop_Done [OF pre]
  have pa: "place_all rules (hand p) (board p) pre = Placed (hand pk) (board pk)"
    by simp
  note inv = place_all_Placed [OF pa]
  from inv have l: "length (hand pk) + length pre = length (hand p)" by simp
  have ne: "pre \<noteq> [] \<longrightarrow> pk \<noteq> p"
  proof
    assume "pre \<noteq> []"
    then have "0 < length pre" by (cases pre) simp_all
    with l have "length (hand pk) \<noteq> length (hand p)" by linarith
    then show "pk \<noteq> p" by auto
  qed
  have "place_all rules (hand p) (board p) (pre @ x # rest) = Rejected e"
    using place_all_append [OF pa, of "x # rest"] bad by simp
  then have "fst (applyBatch rules room p (Some (pre @ x # rest)) discard) \<noteq> Success"
    by (simp add: applyBatch_def batch_list_def Let_def)
  from applyBatch_not_Success [OF this]
  have ab: "snd (applyBatch rules room p (Some (pre @ x # rest)) discard) = p" .
  from h pa l inv ne ab show ?thesis by simp
qed

theorem placeHandler_partial_commit_witness:
  "(placeHandler rules_ex store_ex sock_alice ''r1''
      (Some ([\<lparr>p_row = ''top'', p_card = ''As''\<rparr>] @
             \<lparr>p_row = ''top'', p_card = ''Zz''\<rparr> # [])) :: int outcome) =
     \<lparr>store_after =
        store_ex(''r1'' \<mapsto>
          room_ex\<lparr>players := map_set (user_sub sock_alice) alice_placed (players room_ex)\<rparr>),
      emitted = [ErrorEv (sock_id sock_alice) (CardNotInHand ''Zz'')], thrown = None\<rparr> \<and>
   alice_placed \<noteq> alice"
proof -
  note t = placeHandler_partial_commit
    [where st = store_ex and roomId = "''r1''" and rest = "[]" and ?'d = int,
     OF store_ex_r1 room_ex_alice place_loop_ex place_step_ex_missing]
  have "[\<lparr>p_row = ''top'', p_card = ''As''\<rparr>] \<noteq> []" by simp
  with t show ?thesis by blast
qed

section \<open>Starting a round\<close>









section \<open>The barrier of readyHandler\<close>

lemma emitRoomState_no_reveal: "filter is_reveal (emitRoomState st k) = []"
  by (simp add: emitRoomState_def is_reveal_def split: option.splits)

lemma emitRoomState_no_deal: "filter is_deal (emitRoomState st k) = []"
  by (simp add: emitRoomState_def is_deal_def split: option.splits)

lemma filter_is_reveal_DealBatch:
  "filter is_reveal (map (\<lambda>kp. DealBatchEv (f kp) (g kp)) xs) = []"
  by (induction xs) (simp_all add: is_reveal_def)

lemma filter_is_deal_DealBatch:
  "filter is_deal (map (\<lambda>kp. DealBatchEv (f kp) (g kp)) xs) =
   map (\<lambda>kp. DealBatchEv (f kp) (g kp)) xs"
  by (induction xs) (simp_all add: is_deal_def)

lemma deal_players_grow:
  "n * length ps \<le> length d \<Longrightarrow>
   list_all2 (\<lambda>a b. fst b = fst a \<and>
                (\<exists>cs. length cs = n \<and> snd b = (snd a)\<lparr>hand := hand (snd a) @ cs\<rparr>))
     ps (fst (deal_players n ps d))"
proof (induction ps arbitrary: d)
  case Nil
  then show ?case by simp
next
  case (Cons kp ps)
  obtain ps' d' where dp: "deal_players n ps (drop n d) = (ps', d')"
    by (cases "deal_players n ps (drop n d)")
  from Cons.prems have n: "n \<le> length d" and r: "n * length ps \<le> length (drop n d)"
    by simp_all
  from n have "length (take n d) = n \<and>
      (snd kp)\<lparr>hand := hand (snd kp) @ take n d\<rparr> = (snd kp)\<lparr>hand := hand (snd kp) @ take n d\<rparr>"
    by simp
  then have "\<exists>cs. length cs = n \<and>
      (snd kp)\<lparr>hand := hand (snd kp) @ take n d\<rparr> = (snd kp)\<lparr>hand := hand (snd kp) @ cs\<rparr>"
    by blast
  with Cons.IH [OF r] dp show ?case by simp
qed

lemma players_clear_ready:
  "players (clear_ready r) = map (\<lambda>kp. (fst kp, (snd kp)\<lparr>ready := False\<rparr>)) (players r)"
  by (simp add: clear_ready_def)

lemma dealToAll_dealt:
  assumes "n * length (players r) \<le> length (deck r)"
  shows "\<exists>r'. dealToAll (clear_ready r) n = Inr r' \<and>
           list_all2 (dealt n) (players r) (players r') \<and>
           phase r' = phase r \<and> roundIndex r' = roundIndex r \<and> room_id r' = room_id r"
proof -
  let ?c = "clear_ready r"
  obtain ps' d' where dp: "deal_players n (players ?c) (deck ?c) = (ps', d')"
    by (cases "deal_players n (players ?c) (deck ?c)")
  have len: "n * length (players ?c) \<le> length (deck ?c)"
    using assms by (simp add: clear_ready_def)
  from deal_players_grow [OF len] dp
  have "list_all2 (\<lambda>a b. fst b = fst a \<and>
                (\<exists>cs. length cs = n \<and> snd b = (snd a)\<lparr>hand := hand (snd a) @ cs\<rparr>)) (players ?c) ps'"
    by simp
  then have "list_all2 (dealt n) (players r) ps'"
    unfolding players_clear_ready list_all2_map1
    by (rule list_all2_mono) (auto simp: dealt_def)
  moreover have "dealToAll ?c n = Inr (?c\<lparr>players := ps', deck := d'\<rparr>)"
    using len dp by (simp add: dealToAll_def)
  ultimately show ?thesis
    by (simp add: clear_ready_def)
qed

lemma transition_wait:
  "\<not> allReady r \<Longrightarrow>
   transition rules sc st roomId r =
     \<lparr>store_after = st(roomId \<mapsto> r),
      emitted = [RoomStateEv roomId (room_state_payload r)], thrown = None\<rparr>"
  by (simp add: transition_def emitRoomState_def)

lemma transition_deal:
  assumes "allReady r" and "roundIndex r < deal_rounds rules"
    and "deal_cardsPerRound rules * length (players r) \<le> length (deck r)"
  shows "\<exists>r'. store_after (transition rules sc st roomId r) = st(roomId \<mapsto> r') \<and>
           thrown (transition rules sc st roomId r) = None \<and>
           phase r' = Round \<and> roundIndex r' = roundIndex r + 1 \<and>
           list_all2 (dealt (deal_cardsPerRound rules)) (players r) (players r') \<and>
           filter is_reveal (emitted (transition rules sc st roomId r)) = [] \<and>
           length (filter is_deal (emitted (transition rules sc st roomId r))) =
             length (players r)"
proof -
  from dealToAll_dealt [OF assms(3)] obtain r2 where
    d: "dealToAll (clear_ready r) (deal_cardsPerRound rules) = Inr r2"
    and l: "list_all2 (dealt (deal_cardsPerRound rules)) (players r) (players r2)"
    and f: "phase r2 = phase r" "roundIndex r2 = roundIndex r" "room_id r2 = room_id r"
    by blast
  have ri: "roundIndex (clear_ready r) < deal_rounds rules"
    using assms(2) by (simp add: clear_ready_def)
  from l have len: "length (players r2) = length (players r)"
    by (simp add: list_all2_lengthD)
  let ?r' = "r2\<lparr>phase := Round, roundIndex := Suc (roundIndex r2)\<rparr>"
  have "store_after (transition rules sc st roomId r) = st(roomId \<mapsto> ?r') \<and>
        thrown (transition rules sc st roomId r) = None \<and>
        filter is_reveal (emitted (transition rules sc st roomId r)) = [] \<and>
        length (filter is_deal (emitted (transition rules sc st roomId r))) = length (players r)"
    using assms(1) ri d len
    by (simp add: transition_def Let_def emitRoomState_no_reveal emitRoomState_no_deal
          filter_is_reveal_DealBatch filter_is_deal_DealBatch)
  moreover have "phase ?r' = Round \<and> roundIndex ?r' = roundIndex r + 1 \<and>
      list_all2 (dealt (deal_cardsPerRound rules)) (players r) (players ?r')"
    using l f by simp
  ultimately show ?thesis by blast
qed

lemma transition_reveal:
  assumes "allReady r" and "\<not> roundIndex r < deal_rounds rules"
  shows "store_after (transition rules sc st roomId r) =
           st(roomId \<mapsto> (clear_ready r)\<lparr>phase := Reveal\<rparr>) \<and>
         thrown (transition rules sc st roomId r) = None \<and>
         filter is_reveal (emitted (transition rules sc st roomId r)) =
           [RevealEv (room_id r) (reveal_payload sc ((clear_ready r)\<lparr>phase := Reveal\<rparr>))] \<and>
         filter is_deal (emitted (transition rules sc st roomId r)) = []"
proof -
  have ri: "\<not> roundIndex (clear_ready r) < deal_rounds rules"
    using assms(2) by (simp add: clear_ready_def)
  have id: "room_id (clear_ready r) = room_id r"
    by (simp add: clear_ready_def)
  show ?thesis
    using assms(1) ri id
    by (simp add: transition_def Let_def emitRoomState_no_reveal emitRoomState_no_deal
          is_reveal_def is_deal_def)
qed

lemma clear_ready_facts:
  "list_all (\<lambda>kp. \<not> ready (snd kp)) (players (clear_ready r)) \<and>
   map (\<lambda>kp. (fst kp, hand (snd kp), board (snd kp), discards (snd kp))) (players (clear_ready r)) =
   map (\<lambda>kp. (fst kp, hand (snd kp), board (snd kp), discards (snd kp))) (players r) \<and>
   roundIndex (clear_ready r) = roundIndex r \<and> deck (clear_ready r) = deck r"
  by (simp add: clear_ready_def list_all_iff)

lemma readyHandler_Success:
  assumes "st roomId = Some room"
    and "map_get (players room) (user_sub sock) = Some p"
    and "applyBatch rules room p placements discard = (Success, p1)"
  shows "readyHandler rules sc st sock roomId placements discard =
           transition rules sc st roomId (commit_ready room (user_sub sock) p1)"
  using assms by (simp add: readyHandler_def)

lemma commit_ready_facts:
  assumes "map_get (players room) uid = Some p"
  shows "phase (commit_ready room uid p1) = phase room \<and>
         roundIndex (commit_ready room uid p1) = roundIndex room \<and>
         deck (commit_ready room uid p1) = deck room \<and>
         room_id (commit_ready room uid p1) = room_id room \<and>
         length (players (commit_ready room uid p1)) = length (players room) \<and>
         map_get (players (commit_ready room uid p1)) uid = Some (p1\<lparr>ready := True\<rparr>) \<and>
         (\<forall>k. k \<noteq> uid \<longrightarrow>
            map_get (players (commit_ready room uid p1)) k = map_get (players room) k)"
  using map_get_in_keys [OF assms]
  by (simp add: commit_ready_def length_map_set map_get_map_set map_get_map_set_other)

lemma room_ready_facts:
  "store_ready ''r1'' = Some room_ready \<and> phase room_ready = Round \<and>
   map_get (players room_ready) (user_sub sock_alice) = Some alice \<and>
   roundIndex room_ready = 1 \<and> length (players room_ready) = 2 \<and>
   length (deck room_ready) = 8"
  by (simp add: store_ready_def room_ready_def room_ex_def map_get_def sock_alice_def)

lemma room_last_facts:
  "store_last ''r1'' = Some room_last \<and> phase room_last = Round \<and>
   map_get (players room_last) (user_sub sock_alice) = Some alice \<and>
   roundIndex room_last = 4"
  by (simp add: store_last_def room_last_def room_ready_def room_ex_def map_get_def
        sock_alice_def)

lemma not_allReady_ex: "\<not> allReady (commit_ready room_ex (user_sub sock_alice) alice_done)"
  by (simp add: allReady_def commit_ready_def room_ex_def sock_alice_def bob_def)

lemma allReady_ready: "allReady (commit_ready room_ready (user_sub sock_alice) alice_done)"
  by (simp add: allReady_def commit_ready_def room_ready_def room_ex_def sock_alice_def)

lemma allReady_last: "allReady (commit_ready room_last (user_sub sock_alice) alice_done)"
  by (simp add: allReady_def commit_ready_def room_last_def room_ready_def room_ex_def
        sock_alice_def)

text \<open>
  One call of \<open>readyHandler\<close> after a successful commit. The handler sets the caller's
  ready flag. If some player is not ready, the registry holds the room as the commit left
  it: phase, round index and deck are those of before, the other players are untouched,
  and only the room state is sent. If every player is ready and \<open>roundIndex < rounds\<close>
  (and the deck holds \<open>cardsPerRound\<close> cards for every player), every hand grows by
  \<open>cardsPerRound\<close> cards, every ready flag is cleared, the phase is \<open>round\<close>, the round
  index is one more, one deal is sent to each player and nothing is revealed. If every
  player is ready and \<open>roundIndex < rounds\<close> fails, every ready flag is cleared, the phase
  is \<open>reveal\<close>, hands, boards, discards and round index stay, and this call sends exactly
  one reveal.
\<close>

theorem readyHandler_barrier:
  assumes room: "st roomId = Some room"
    and pl: "map_get (players room) (user_sub sock) = Some p"
    and ok: "applyBatch rules room p placements discard = (Success, p1)"
  shows
    "(\<not> allReady (commit_ready room (user_sub sock) p1) \<longrightarrow>
        readyHandler rules sc st sock roomId placements discard =
          \<lparr>store_after = st(roomId \<mapsto> commit_ready room (user_sub sock) p1),
           emitted = [RoomStateEv roomId
                        (room_state_payload (commit_ready room (user_sub sock) p1))],
           thrown = None\<rparr> \<and>
        phase (commit_ready room (user_sub sock) p1) = phase room \<and>
        roundIndex (commit_ready room (user_sub sock) p1) = roundIndex room \<and>
        deck (commit_ready room (user_sub sock) p1) = deck room \<and>
        map_get (players (commit_ready room (user_sub sock) p1)) (user_sub sock) =
          Some (p1\<lparr>ready := True\<rparr>) \<and>
        (\<forall>k. k \<noteq> user_sub sock \<longrightarrow>
           map_get (players (commit_ready room (user_sub sock) p1)) k =
           map_get (players room) k)) \<and>
     (allReady (commit_ready room (user_sub sock) p1) \<and>
      roundIndex room < deal_rounds rules \<and>
      deal_cardsPerRound rules * length (players room) \<le> length (deck room) \<longrightarrow>
        (\<exists>r'. store_after (readyHandler rules sc st sock roomId placements discard) =
                 st(roomId \<mapsto> r') \<and>
               thrown (readyHandler rules sc st sock roomId placements discard) = None \<and>
               phase r' = Round \<and> roundIndex r' = roundIndex room + 1 \<and>
               list_all2 (dealt (deal_cardsPerRound rules))
                 (players (commit_ready room (user_sub sock) p1)) (players r') \<and>
               filter is_reveal
                 (emitted (readyHandler rules sc st sock roomId placements discard)) = [] \<and>
               length (filter is_deal
                 (emitted (readyHandler rules sc st sock roomId placements discard))) =
                 length (players room))) \<and>
     (allReady (commit_ready room (user_sub sock) p1) \<and>
      \<not> roundIndex room < deal_rounds rules \<longrightarrow>
        store_after (readyHandler rules sc st sock roomId placements discard) =
          st(roomId \<mapsto> (clear_ready (commit_ready room (user_sub sock) p1))\<lparr>phase := Reveal\<rparr>) \<and>
        thrown (readyHandler rules sc st sock roomId placements discard) = None \<and>
        filter is_reveal (emitted (readyHandler rules sc st sock roomId placements discard)) =
          [RevealEv (room_id room)
             (reveal_payload sc
                ((clear_ready (commit_ready room (user_sub sock) p1))\<lparr>phase := Reveal\<rparr>))] \<and>
        filter is_deal (emitted (readyHandler rules sc st sock roomId placements discard)) = [] \<and>
        list_all (\<lambda>kp. \<not> ready (snd kp))
          (players (clear_ready (commit_ready room (user_sub sock) p1))) \<and>
        map (\<lambda>kp. (fst kp, hand (snd kp), board (snd kp), discards (snd kp)))
          (players (clear_ready (commit_ready room (user_sub sock) p1))) =
        map (\<lambda>kp. (fst kp, hand (snd kp), board (snd kp), discards (snd kp)))
          (players (commit_ready room (user_sub sock) p1)) \<and>
        roundIndex (clear_ready (commit_ready room (user_sub sock) p1)) = roundIndex room)"
proof -
  let ?R = "commit_ready room (user_sub sock) p1"
  let ?out = "readyHandler rules sc st sock roomId placements discard"
  note cf = commit_ready_facts [OF pl, of p1]
  have out: "?out = transition rules sc st roomId ?R"
    using room pl ok by (rule readyHandler_Success)
  have a: "\<not> allReady ?R \<longrightarrow>
        ?out = \<lparr>store_after = st(roomId \<mapsto> ?R),
                emitted = [RoomStateEv roomId (room_state_payload ?R)], thrown = None\<rparr>"
    using transition_wait [of ?R rules sc st roomId] out by simp
  have b: "allReady ?R \<and> roundIndex room < deal_rounds rules \<and>
      deal_cardsPerRound rules * length (players room) \<le> length (deck room) \<longrightarrow>
        (\<exists>r'. store_after ?out = st(roomId \<mapsto> r') \<and> thrown ?out = None \<and>
               phase r' = Round \<and> roundIndex r' = roundIndex room + 1 \<and>
               list_all2 (dealt (deal_cardsPerRound rules)) (players ?R) (players r') \<and>
               filter is_reveal (emitted ?out) = [] \<and>
               length (filter is_deal (emitted ?out)) = length (players room))"
  proof
    assume h: "allReady ?R \<and> roundIndex room < deal_rounds rules \<and>
      deal_cardsPerRound rules * length (players room) \<le> length (deck room)"
    with cf have h1: "allReady ?R" and h2: "roundIndex ?R < deal_rounds rules"
      and h3: "deal_cardsPerRound rules * length (players ?R) \<le> length (deck ?R)"
      by simp_all
    from transition_deal [OF h1 h2 h3, of sc st roomId] cf out
    show "\<exists>r'. store_after ?out = st(roomId \<mapsto> r') \<and> thrown ?out = None \<and>
               phase r' = Round \<and> roundIndex r' = roundIndex room + 1 \<and>
               list_all2 (dealt (deal_cardsPerRound rules)) (players ?R) (players r') \<and>
               filter is_reveal (emitted ?out) = [] \<and>
               length (filter is_deal (emitted ?out)) = length (players room)"
      by simp
  qed
  have c: "allReady ?R \<and> \<not> roundIndex room < deal_rounds rules \<longrightarrow>
        store_after ?out = st(roomId \<mapsto> (clear_ready ?R)\<lparr>phase := Reveal\<rparr>) \<and>
        thrown ?out = None \<and>
        filter is_reveal (emitted ?out) =
          [RevealEv (room_id room) (reveal_payload sc ((clear_ready ?R)\<lparr>phase := Reveal\<rparr>))] \<and>
        filter is_deal (emitted ?out) = []"
  proof
    assume h: "allReady ?R \<and> \<not> roundIndex room < deal_rounds rules"
    with cf have h1: "allReady ?R" and h2: "\<not> roundIndex ?R < deal_rounds rules"
      by simp_all
    from transition_reveal [OF h1 h2, of sc st roomId] cf out
    show "store_after ?out = st(roomId \<mapsto> (clear_ready ?R)\<lparr>phase := Reveal\<rparr>) \<and>
        thrown ?out = None \<and>
        filter is_reveal (emitted ?out) =
          [RevealEv (room_id room) (reveal_payload sc ((clear_ready ?R)\<lparr>phase := Reveal\<rparr>))] \<and>
        filter is_deal (emitted ?out) = []"
      by simp
  qed
  note cr = clear_ready_facts [of ?R]
  from a b c cf cr show ?thesis by simp
qed

theorem readyHandler_barrier_witness:
  "readyHandler rules_ex scoring_ex store_ex sock_alice ''r1'' (Some batch_ex) (Some ''7c'') =
     \<lparr>store_after = store_ex(''r1'' \<mapsto> commit_ready room_ex (user_sub sock_alice) alice_done),
      emitted = [RoomStateEv ''r1''
                   (room_state_payload (commit_ready room_ex (user_sub sock_alice) alice_done))],
      thrown = None\<rparr> \<and>
   (\<exists>r'. store_after (readyHandler rules_ex scoring_ex store_ready sock_alice ''r1''
                        (Some batch_ex) (Some ''7c'')) = store_ready(''r1'' \<mapsto> r') \<and>
          phase r' = Round \<and> roundIndex r' = 2 \<and>
          list_all2 (dealt 3)
            (players (commit_ready room_ready (user_sub sock_alice) alice_done)) (players r')) \<and>
   filter is_reveal (emitted (readyHandler rules_ex scoring_ex store_last sock_alice ''r1''
                               (Some batch_ex) (Some ''7c''))) =
     [RevealEv ''r1''
        (reveal_payload scoring_ex
           ((clear_ready (commit_ready room_last (user_sub sock_alice) alice_done))
              \<lparr>phase := Reveal\<rparr>))]"
proof -
  note t1 = readyHandler_barrier
    [where st = store_ex and roomId = "''r1''" and sc = scoring_ex,
     OF store_ex_r1 room_ex_alice applyBatch_ex_ok [OF phase_room_ex]]
  have rr: "store_ready ''r1'' = Some room_ready"
    and rp: "map_get (players room_ready) (user_sub sock_alice) = Some alice"
    and rph: "phase room_ready = Round"
    using room_ready_facts by simp_all
  note t2 = readyHandler_barrier
    [where st = store_ready and roomId = "''r1''" and sc = scoring_ex,
     OF rr rp applyBatch_ex_ok [OF rph]]
  have lr: "store_last ''r1'' = Some room_last"
    and lp: "map_get (players room_last) (user_sub sock_alice) = Some alice"
    and lph: "phase room_last = Round"
    using room_last_facts by simp_all
  note t3 = readyHandler_barrier
    [where st = store_last and roomId = "''r1''" and sc = scoring_ex,
     OF lr lp applyBatch_ex_ok [OF lph]]
  have c2: "roundIndex room_ready < deal_rounds rules_ex \<and>
      deal_cardsPerRound rules_ex * length (players room_ready) \<le> length (deck room_ready)"
    using room_ready_facts by (simp add: rules_ex_def)
  have c3: "\<not> roundIndex room_last < deal_rounds rules_ex"
    using room_last_facts by (simp add: rules_ex_def)
  have n: "deal_cardsPerRound rules_ex = 3" by (simp add: rules_ex_def)
  have i: "room_id room_last = ''r1''"
    by (simp add: room_last_def room_ready_def room_ex_def)
  from t1 not_allReady_ex have p1:
    "readyHandler rules_ex scoring_ex store_ex sock_alice ''r1'' (Some batch_ex) (Some ''7c'') =
     \<lparr>store_after = store_ex(''r1'' \<mapsto> commit_ready room_ex (user_sub sock_alice) alice_done),
      emitted = [RoomStateEv ''r1''
                   (room_state_payload (commit_ready room_ex (user_sub sock_alice) alice_done))],
      thrown = None\<rparr>"
    by blast
  from t2 allReady_ready c2 obtain r' where
    "store_after (readyHandler rules_ex scoring_ex store_ready sock_alice ''r1''
                        (Some batch_ex) (Some ''7c'')) = store_ready(''r1'' \<mapsto> r')"
    "phase r' = Round" "roundIndex r' = roundIndex room_ready + 1"
    "list_all2 (dealt (deal_cardsPerRound rules_ex))
            (players (commit_ready room_ready (user_sub sock_alice) alice_done)) (players r')"
    by blast
  then have p2: "\<exists>r'. store_after (readyHandler rules_ex scoring_ex store_ready sock_alice ''r1''
                        (Some batch_ex) (Some ''7c'')) = store_ready(''r1'' \<mapsto> r') \<and>
          phase r' = Round \<and> roundIndex r' = 2 \<and>
          list_all2 (dealt 3)
            (players (commit_ready room_ready (user_sub sock_alice) alice_done)) (players r')"
    using room_ready_facts n by auto
  from t3 allReady_last c3 have p3:
   "filter is_reveal (emitted (readyHandler rules_ex scoring_ex store_last sock_alice ''r1''
                               (Some batch_ex) (Some ''7c''))) =
     [RevealEv (room_id room_last)
        (reveal_payload scoring_ex
           ((clear_ready (commit_ready room_last (user_sub sock_alice) alice_done))
              \<lparr>phase := Reveal\<rparr>))]"
    by blast
  from p1 p2 p3 i show ?thesis by simp
qed

section \<open>The reveal payload\<close>

lemma rv_round_reveal_payload: "rv_round (reveal_payload sc room) = round_num room"
  by (simp add: reveal_payload_def Let_def split: prod.splits)

lemma rv_boards_reveal_payload:
  "rv_boards (reveal_payload sc room) = map (\<lambda>kp. board_summary_of sc (snd kp)) (players room)"
  by (simp add: reveal_payload_def Let_def split: prod.splits)

lemma top_lengths:
  "length (row_top (board alice)) = 0 \<and> length (row_top (board bob)) = 1 \<and>
   length (row_top (board carol)) = 3"
  by (simp add: alice_def bob_def carol_def)

lemma user_ids: "userId alice = ''u1'' \<and> userId bob = ''u2'' \<and> userId carol = ''u3''"
  by (simp add: alice_def bob_def carol_def)

text \<open>
  The payload on three players: the pairs come in the order of the nested loops, each
  total is the sum over the pairs of the player, and a board is valid iff it is not fouled.
\<close>

lemma settle_three:
  "foldl (settle_pair scoring_top) (Map.empty, []) (pairs [alice, bob, carol]) =
     (Map.empty(''u1'' \<mapsto> Number (- 4), ''u2'' \<mapsto> Number (- 1), ''u3'' \<mapsto> Number 5),
      [\<lparr>aUserId = ''u1'', bUserId = ''u2'', a_det = - 1, b_det = 1\<rparr>,
       \<lparr>aUserId = ''u1'', bUserId = ''u3'', a_det = - 3, b_det = 3\<rparr>,
       \<lparr>aUserId = ''u2'', bUserId = ''u3'', a_det = - 2, b_det = 2\<rparr>])"
  by (simp add: settle_pair_def scoring_top_def top_lengths user_ids totals_plus_def
        totals_assign_def object_prototype_def fun_upd_twist)

text \<open>
  A user id that names a property of \<open>Object.prototype\<close>: nothing is recorded for
  \<open>__proto__\<close>, and the total of \<open>constructor\<close> is a string, not a number.
\<close>

lemma settle_proto:
  "foldl (settle_pair scoring_top) (Map.empty, [])
     (pairs [alice\<lparr>userId := ''__proto__''\<rparr>, bob\<lparr>userId := ''constructor''\<rparr>, carol]) =
     (Map.empty(''constructor'' \<mapsto> Joined ''constructor'' [1, - 2], ''u3'' \<mapsto> Number 5),
      [\<lparr>aUserId = ''__proto__'', bUserId = ''constructor'', a_det = - 1, b_det = 1\<rparr>,
       \<lparr>aUserId = ''__proto__'', bUserId = ''u3'', a_det = - 3, b_det = 3\<rparr>,
       \<lparr>aUserId = ''constructor'', bUserId = ''u3'', a_det = - 2, b_det = 2\<rparr>])"
  by (simp add: settle_pair_def scoring_top_def top_lengths user_ids totals_plus_def
        totals_assign_def object_prototype_def)

lemma reveal_payload_three:
  "reveal_payload scoring_top room_three =
     \<lparr>rv_boards =
        [\<lparr>bs_userId = ''u1'', bs_name = ''Alice'', bs_board = board alice, bs_valid = False,
          bs_reason = Some ''top row incomplete''\<rparr>,
         \<lparr>bs_userId = ''u2'', bs_name = ''Bob'', bs_board = board bob, bs_valid = False,
          bs_reason = Some ''top row incomplete''\<rparr>,
         \<lparr>bs_userId = ''u3'', bs_name = ''Carol'', bs_board = board carol, bs_valid = True,
          bs_reason = None\<rparr>],
      rv_results =
        Map.empty(''u1'' \<mapsto> Number (- 4), ''u2'' \<mapsto> Number (- 1), ''u3'' \<mapsto> Number 5),
      rv_pairwise =
        [\<lparr>aUserId = ''u1'', bUserId = ''u2'', a_det = - 1, b_det = 1\<rparr>,
         \<lparr>aUserId = ''u1'', bUserId = ''u3'', a_det = - 3, b_det = 3\<rparr>,
         \<lparr>aUserId = ''u2'', bUserId = ''u3'', a_det = - 2, b_det = 2\<rparr>],
      rv_round = 1\<rparr>"
proof -
  have ps: "map snd (players room_three) = [alice, bob, carol]"
    and rn: "round_num room_three = 1"
    by (simp_all add: room_three_def room_ex_def)
  have bs: "board_summary_of scoring_top alice =
        \<lparr>bs_userId = ''u1'', bs_name = ''Alice'', bs_board = board alice, bs_valid = False,
          bs_reason = Some ''top row incomplete''\<rparr>"
      "board_summary_of scoring_top bob =
         \<lparr>bs_userId = ''u2'', bs_name = ''Bob'', bs_board = board bob, bs_valid = False,
          bs_reason = Some ''top row incomplete''\<rparr>"
      "board_summary_of scoring_top carol =
         \<lparr>bs_userId = ''u3'', bs_name = ''Carol'', bs_board = board carol, bs_valid = True,
          bs_reason = None\<rparr>"
    unfolding board_summary_of_def scoring_top_def
    by (simp_all add: alice_def bob_def carol_def)
  show ?thesis
    by (simp add: reveal_payload_def ps rn bs settle_three del: pairs.simps foldl.simps)
qed

section \<open>A hand settled twice\<close>

lemma applyBatch_round_ok:
  assumes "phase r \<noteq> InitialSet" and "length ps = deal_placeCountPerRound rules"
    and "place_all rules (hand p) (board p) ps = Placed h b"
    and "indexOf h d = Some di" and "d \<noteq> []"
  shows "applyBatch rules r p (Some ps) (Some d) =
           (Success, p\<lparr>hand := splice1 di h, board := b, discards := discards p @ [d]\<rparr>)"
  using assms by (simp add: applyBatch_def batch_count_def batch_list_def truthy_def)

lemmas step_defs = place_step_def board_get_def board_push_def limit_def splice1_def rules_ex_def

lemma apply_a1:
  "phase r \<noteq> InitialSet \<Longrightarrow>
   applyBatch rules_ex r alice_r4 (Some batch_a1) (Some ''7c'') = (Success, alice_c1)"
proof -
  assume ph: "phase r \<noteq> InitialSet"
  have pa: "place_all rules_ex (hand alice_r4) (board alice_r4) batch_a1 =
      Placed [''7c'', ''2h'', ''3h'', ''4h'', ''5h'', ''6h'']
        \<lparr>row_top = [''Ac'', ''Ad'', ''As''], row_middle = [''9h'', ''9c'', ''Kd''],
                 row_bottom = [''Qs'', ''Qd'']\<rparr>"
    by (simp add: step_defs alice_r4_def batch_a1_def)
  have ix: "indexOf [''7c'', ''2h'', ''3h'', ''4h'', ''5h'', ''6h''] ''7c'' = Some 0" by simp
  have len: "length batch_a1 = deal_placeCountPerRound rules_ex"
    by (simp add: batch_a1_def rules_ex_def)
  from applyBatch_round_ok [OF ph len pa ix] show ?thesis
    by (simp add: splice1_def alice_c1_def alice_r4_def)
qed

lemma apply_b1:
  "phase r \<noteq> InitialSet \<Longrightarrow>
   applyBatch rules_ex r bob_r4 (Some batch_b1) (Some ''5c'') = (Success, bob_c1)"
proof -
  assume ph: "phase r \<noteq> InitialSet"
  have pa: "place_all rules_ex (hand bob_r4) (board bob_r4) batch_b1 =
      Placed [''5c'', ''Jc'', ''Js'', ''8h'', ''8s'', ''8d'']
        \<lparr>row_top = [''2s'', ''2d'', ''3s''], row_middle = [''Tc'', ''Td'', ''4d''],
                 row_bottom = [''Jh'', ''Jd'']\<rparr>"
    by (simp add: step_defs bob_r4_def batch_b1_def)
  have ix: "indexOf [''5c'', ''Jc'', ''Js'', ''8h'', ''8s'', ''8d''] ''5c'' = Some 0" by simp
  have len: "length batch_b1 = deal_placeCountPerRound rules_ex"
    by (simp add: batch_b1_def rules_ex_def)
  from applyBatch_round_ok [OF ph len pa ix] show ?thesis
    by (simp add: splice1_def bob_c1_def bob_r4_def)
qed

lemma apply_a2:
  "phase r \<noteq> InitialSet \<Longrightarrow>
   applyBatch rules_ex r alice_c1 (Some batch_a2) (Some ''4h'') = (Success, alice_c2)"
proof -
  assume ph: "phase r \<noteq> InitialSet"
  have pa: "place_all rules_ex (hand alice_c1) (board alice_c1) batch_a2 =
      Placed [''4h'', ''5h'', ''6h'']
        \<lparr>row_top = [''Ac'', ''Ad'', ''As''], row_middle = [''9h'', ''9c'', ''Kd'', ''2h''],
                 row_bottom = [''Qs'', ''Qd'', ''3h'']\<rparr>"
    by (simp add: step_defs alice_c1_def batch_a2_def)
  have ix: "indexOf [''4h'', ''5h'', ''6h''] ''4h'' = Some 0" by simp
  have len: "length batch_a2 = deal_placeCountPerRound rules_ex"
    by (simp add: batch_a2_def rules_ex_def)
  from applyBatch_round_ok [OF ph len pa ix] show ?thesis
    by (simp add: splice1_def alice_c2_def alice_c1_def)
qed

lemma apply_b2:
  "phase r \<noteq> InitialSet \<Longrightarrow>
   applyBatch rules_ex r bob_c1 (Some batch_b2) (Some ''8h'') = (Success, bob_c2)"
proof -
  assume ph: "phase r \<noteq> InitialSet"
  have pa: "place_all rules_ex (hand bob_c1) (board bob_c1) batch_b2 =
      Placed [''8h'', ''8s'', ''8d'']
        \<lparr>row_top = [''2s'', ''2d'', ''3s''], row_middle = [''Tc'', ''Td'', ''4d'', ''Jc''],
                 row_bottom = [''Jh'', ''Jd'', ''Js'']\<rparr>"
    by (simp add: step_defs bob_c1_def batch_b2_def)
  have ix: "indexOf [''8h'', ''8s'', ''8d''] ''8h'' = Some 0" by simp
  have len: "length batch_b2 = deal_placeCountPerRound rules_ex"
    by (simp add: batch_b2_def rules_ex_def)
  from applyBatch_round_ok [OF ph len pa ix] show ?thesis
    by (simp add: splice1_def bob_c2_def bob_c1_def)
qed

lemma store_upd_r1: "(st(''r1'' \<mapsto> a)) ''r1'' = Some a"
  by simp

lemma replay1_eq:
  "replay1 =
     \<lparr>store_after = store_r4(''r1'' \<mapsto> room_r4a),
      emitted = [RoomStateEv ''r1'' (room_state_payload room_r4a)], thrown = None\<rparr>"
proof -
  have s: "store_r4 ''r1'' = Some room_r4" by (simp add: store_r4_def)
  have p: "map_get (players room_r4) (user_sub sock_alice) = Some alice_r4"
    by (simp add: map_get_def room_r4_def sock_alice_def)
  have ph: "phase room_r4 \<noteq> InitialSet" by (simp add: room_r4_def)
  have cr: "commit_ready room_r4 (user_sub sock_alice) alice_c1 = room_r4a"
    by (simp add: commit_ready_def room_r4_def room_r4a_def sock_alice_def)
  have nr: "\<not> allReady room_r4a"
    by (simp add: allReady_def room_r4a_def room_r4_def bob_r4_def)
  have "replay1 = transition rules_ex scoring_top store_r4 ''r1''
                    (commit_ready room_r4 (user_sub sock_alice) alice_c1)"
    unfolding replay1_def using s p apply_a1 [OF ph] by (rule readyHandler_Success)
  with cr transition_wait [OF nr, of rules_ex scoring_top store_r4 "''r1''"]
  show ?thesis by simp
qed

lemma replay2_eq:
  "store_after replay2 = store_r4(''r1'' \<mapsto> room_rev1) \<and> thrown replay2 = None \<and>
   filter is_reveal (emitted replay2) = [RevealEv ''r1'' (reveal_payload scoring_top room_rev1)]"
proof -
  have s: "store_after replay1 ''r1'' = Some room_r4a" by (simp add: replay1_eq)
  have p: "map_get (players room_r4a) (user_sub sock_bob) = Some bob_r4"
    by (simp add: map_get_def room_r4a_def room_r4_def sock_bob_def)
  have ph: "phase room_r4a \<noteq> InitialSet" by (simp add: room_r4a_def room_r4_def)
  let ?R = "commit_ready room_r4a (user_sub sock_bob) bob_c1"
  have ar: "allReady ?R"
    by (simp add: allReady_def commit_ready_def room_r4a_def room_r4_def sock_bob_def)
  have ri: "\<not> roundIndex ?R < deal_rounds rules_ex"
    by (simp add: commit_ready_def room_r4a_def room_r4_def rules_ex_def)
  have rv: "(clear_ready ?R)\<lparr>phase := Reveal\<rparr> = room_rev1"
    by (simp add: clear_ready_def commit_ready_def room_r4a_def room_r4_def room_rev1_def
          sock_bob_def alice_c1_def alice_r4_def bob_c1_def bob_r4_def)
  have id: "room_id ?R = ''r1''"
    by (simp add: commit_ready_def room_r4a_def room_r4_def)
  have "replay2 = transition rules_ex scoring_top (store_after replay1) ''r1'' ?R"
    unfolding replay2_def using s p apply_b1 [OF ph] by (rule readyHandler_Success)
  with transition_reveal [OF ar ri, of scoring_top "store_after replay1" "''r1''"] rv id
  show ?thesis by (simp add: replay1_eq)
qed

lemma replay3_eq:
  "replay3 =
     \<lparr>store_after = store_r4(''r1'' \<mapsto> room_rev1a),
      emitted = [RoomStateEv ''r1'' (room_state_payload room_rev1a)], thrown = None\<rparr>"
proof -
  have s: "store_after replay2 ''r1'' = Some room_rev1" by (simp add: replay2_eq)
  have p: "map_get (players room_rev1) (user_sub sock_alice) = Some alice_c1"
    by (simp add: map_get_def room_rev1_def room_r4_def sock_alice_def)
  have ph: "phase room_rev1 \<noteq> InitialSet" by (simp add: room_rev1_def room_r4_def)
  have cr: "commit_ready room_rev1 (user_sub sock_alice) alice_c2 = room_rev1a"
    by (simp add: commit_ready_def room_rev1_def room_r4_def room_rev1a_def sock_alice_def)
  have nr: "\<not> allReady room_rev1a"
    by (simp add: allReady_def room_rev1a_def room_r4_def bob_c1_def bob_r4_def)
  have "replay3 = transition rules_ex scoring_top (store_after replay2) ''r1''
                    (commit_ready room_rev1 (user_sub sock_alice) alice_c2)"
    unfolding replay3_def using s p apply_a2 [OF ph] by (rule readyHandler_Success)
  with cr transition_wait [OF nr, of rules_ex scoring_top "store_after replay2" "''r1''"]
  show ?thesis by (simp add: replay2_eq)
qed

lemma replay4_eq:
  "store_after replay4 = store_r4(''r1'' \<mapsto> room_rev2) \<and> thrown replay4 = None \<and>
   filter is_reveal (emitted replay4) = [RevealEv ''r1'' (reveal_payload scoring_top room_rev2)]"
proof -
  have s: "store_after replay3 ''r1'' = Some room_rev1a" by (simp add: replay3_eq)
  have p: "map_get (players room_rev1a) (user_sub sock_bob) = Some bob_c1"
    by (simp add: map_get_def room_rev1a_def room_r4_def sock_bob_def)
  have ph: "phase room_rev1a \<noteq> InitialSet" by (simp add: room_rev1a_def room_r4_def)
  let ?R = "commit_ready room_rev1a (user_sub sock_bob) bob_c2"
  have ar: "allReady ?R"
    by (simp add: allReady_def commit_ready_def room_rev1a_def room_r4_def sock_bob_def)
  have ri: "\<not> roundIndex ?R < deal_rounds rules_ex"
    by (simp add: commit_ready_def room_rev1a_def room_r4_def rules_ex_def)
  have rv: "(clear_ready ?R)\<lparr>phase := Reveal\<rparr> = room_rev2"
    by (simp add: clear_ready_def commit_ready_def room_rev1a_def room_r4_def room_rev2_def
          sock_bob_def alice_c2_def alice_c1_def alice_r4_def bob_c2_def bob_c1_def bob_r4_def)
  have id: "room_id ?R = ''r1''"
    by (simp add: commit_ready_def room_rev1a_def room_r4_def)
  have "replay4 = transition rules_ex scoring_top (store_after replay3) ''r1'' ?R"
    unfolding replay4_def using s p apply_b2 [OF ph] by (rule readyHandler_Success)
  with transition_reveal [OF ar ri, of scoring_top "store_after replay3" "''r1''"] rv id
  show ?thesis by (simp add: replay3_eq)
qed

text \<open>
  C2. The transition of one call is as the claim says, but settlement does not run
  exactly once for a hand: the handler tests \<open>roundIndex < rounds\<close> only, and \<open>applyBatch\<close>
  treats every phase but the initial set as a pineapple round. In a hand in which the
  players kept cards of the initial set, the commits of the last round reveal the hand,
  and a further commit of every player in phase \<open>reveal\<close> is accepted and reveals the
  same hand (the same \<open>round\<close>) a second time.
\<close>

theorem readyHandler_settles_twice:
  "store_r4 ''r1'' = Some room_r4 \<and> phase room_r4 = Round \<and> round_num room_r4 = 1 \<and>
   thrown replay1 = None \<and> filter is_reveal (emitted replay1) = [] \<and>
   thrown replay2 = None \<and>
   filter is_reveal (emitted replay2) = [RevealEv ''r1'' (reveal_payload scoring_top room_rev1)] \<and>
   store_after replay2 ''r1'' = Some room_rev1 \<and> phase room_rev1 = Reveal \<and>
   rv_round (reveal_payload scoring_top room_rev1) = 1 \<and>
   thrown replay3 = None \<and> filter is_reveal (emitted replay3) = [] \<and>
   thrown replay4 = None \<and>
   filter is_reveal (emitted replay4) = [RevealEv ''r1'' (reveal_payload scoring_top room_rev2)] \<and>
   store_after replay4 ''r1'' = Some room_rev2 \<and> phase room_rev2 = Reveal \<and>
   rv_round (reveal_payload scoring_top room_rev2) = 1"
proof -
  have a: "store_r4 ''r1'' = Some room_r4 \<and> phase room_r4 = Round \<and> round_num room_r4 = 1"
    by (simp add: store_r4_def room_r4_def)
  have b: "thrown replay1 = None \<and> filter is_reveal (emitted replay1) = [] \<and>
           thrown replay3 = None \<and> filter is_reveal (emitted replay3) = []"
    by (simp add: replay1_eq replay3_eq is_reveal_def)
  have c: "store_after replay2 ''r1'' = Some room_rev1 \<and>
           store_after replay4 ''r1'' = Some room_rev2"
    by (simp add: replay2_eq replay4_eq)
  have d: "phase room_rev1 = Reveal \<and> phase room_rev2 = Reveal \<and>
           rv_round (reveal_payload scoring_top room_rev1) = 1 \<and>
           rv_round (reveal_payload scoring_top room_rev2) = 1"
    by (simp add: rv_round_reveal_payload room_rev1_def room_rev2_def room_r4_def)
  from a b c d replay2_eq replay4_eq show ?thesis by blast
qed

end
